theory Spec2Isabelle
  imports Complex_Main "HOL-Library.Log_Nat" "HOL-Library.Multiset"
begin

section \<open>Arrays, errors and broadcasting\<close>

text \<open>
  The program is \<^verbatim>\<open>src/gbasis/gradient/ad.py\<close>: \<^verbatim>\<open>eval_contractions\<close> evaluates
  Cartesian Gaussian contractions at one point with numpy, \<^verbatim>\<open>eval_deriv\<close> differentiates
  it with respect to the three center scalars with autograd.

  Numbers: numpy's float64 is idealised as \<open>real\<close>; rounding, overflow and underflow are
  outside this model. What is kept of floating point is the quotient by zero, which numpy
  answers with nan or inf and a warning instead of raising: a value that may be one of
  these is a \<open>real option\<close>, with \<open>None\<close> for "not a finite number". Where a property turns
  on rounding (the order in which the primitives are summed), \<^verbatim>\<open>eval_contractions\<close> is modelled
  a second time over rounded float64 numbers, in the section on float64 arithmetic.

  Exceptions are values: a function that can raise returns \<open>error + 'a\<close>.
\<close>

datatype error = ValueError | TypeError

definition and_then :: "error + 'a \<Rightarrow> ('a \<Rightarrow> error + 'b) \<Rightarrow> error + 'b" where
  "and_then r f = (case r of Inl e \<Rightarrow> Inl e | Inr x \<Rightarrow> f x)"

text \<open>
  A two-dimensional numpy array is its shape and its C-ordered buffer; a one-dimensional
  array is a list.
\<close>

record 'a ndarray2 =
  nrows :: nat
  ncols :: nat
  buffer :: "'a list"

definition at2 :: "'a ndarray2 \<Rightarrow> nat \<Rightarrow> nat \<Rightarrow> 'a" where
  "at2 A i j = buffer A ! (i * ncols A + j)"

definition shaped :: "nat \<Rightarrow> nat \<Rightarrow> 'a ndarray2 \<Rightarrow> bool" where
  "shaped r c A \<longleftrightarrow> nrows A = r \<and> ncols A = c \<and> length (buffer A) = r * c"

definition row :: "'a ndarray2 \<Rightarrow> nat \<Rightarrow> 'a list" where
  "row A i = map (\<lambda>j. at2 A i j) [0..<ncols A]"

text \<open>
  numpy's broadcasting of two axes: equal lengths stay, an axis of length one is
  stretched, anything else raises ValueError. \<open>bidx n i\<close> is the position read in an
  axis of length \<open>n\<close> when the broadcast result is read at \<open>i\<close>.
\<close>

definition broadcast_dim :: "nat \<Rightarrow> nat \<Rightarrow> error + nat" where
  "broadcast_dim m n =
     (if m = n then Inr m else if m = 1 then Inr n else if n = 1 then Inr m
      else Inl ValueError)"

definition bidx :: "nat \<Rightarrow> nat \<Rightarrow> nat" where
  "bidx n i = (if n = 1 then 0 else i)"

section \<open>eval\_contractions\<close>

text \<open>
  The intermediate arrays of \<^verbatim>\<open>eval_contractions\<close> have five axes, most of length one;
  each is modelled by its entries at the axes that are not.

  \<^verbatim>\<open>coords = coords - center\<close>, shape (1, 1, 3, 1, 1): entry \<open>d\<close>.
\<close>

definition shift :: "real list \<Rightarrow> real \<Rightarrow> real \<Rightarrow> real \<Rightarrow> nat \<Rightarrow> real" where
  "shift coords R_x R_y R_z d = coords ! d - [R_x, R_y, R_z] ! d"

text \<open>\<^verbatim>\<open>gauss = np.exp(-alphas * coords ** 2)\<close>, shape (1, K, 3, 1, 1): entry \<open>(k, d)\<close>.\<close>

definition gauss :: "real list \<Rightarrow> (nat \<Rightarrow> real) \<Rightarrow> nat \<Rightarrow> nat \<Rightarrow> real" where
  "gauss alphas \<Delta> k d = exp (- (alphas ! k) * (\<Delta> d) ^ 2)"

text \<open>
  \<^verbatim>\<open>coords ** angmom_comps\<close>, shape (1, 1, 3, L, 1): entry \<open>(d, l)\<close>. The exponents are
  \<^verbatim>\<open>angmom_comps.T\<close>, of shape (A, L) for an (L, A) input, broadcast against the three
  coordinates. numpy's power of a float to the integer 0 is 1, also at base 0, as is
  \<open>x ^ 0\<close> here. The components are non-negative integers, hence \<open>nat\<close>.
\<close>

definition monomial :: "nat ndarray2 \<Rightarrow> (nat \<Rightarrow> real) \<Rightarrow> nat \<Rightarrow> nat \<Rightarrow> real" where
  "monomial angmom_comps \<Delta> d l = (\<Delta> d) ^ (at2 angmom_comps l (bidx (ncols angmom_comps) d))"

text \<open>\<^verbatim>\<open>coords ** angmom_comps * gauss\<close>, shape (1, K, 3, L, 1): entry \<open>(k, d, l)\<close>.\<close>

definition factor ::
  "nat ndarray2 \<Rightarrow> real list \<Rightarrow> (nat \<Rightarrow> real) \<Rightarrow> nat \<Rightarrow> nat \<Rightarrow> nat \<Rightarrow> real" where
  "factor angmom_comps alphas \<Delta> k d l = monomial angmom_comps \<Delta> d l * gauss alphas \<Delta> k d"

text \<open>\<^verbatim>\<open>zeroth_part = np.prod(..., axis=(0, 2))\<close>, shape (K, L, 1): entry \<open>(k, l)\<close>.\<close>

definition zeroth_part ::
  "nat ndarray2 \<Rightarrow> real list \<Rightarrow> (nat \<Rightarrow> real) \<Rightarrow> nat \<Rightarrow> nat \<Rightarrow> real" where
  "zeroth_part angmom_comps alphas \<Delta> k l =
     prod_list (map (\<lambda>d. factor angmom_comps alphas \<Delta> k d l) [0..<3])"

text \<open>
  \<^verbatim>\<open>norm.T[:, :, np.newaxis] * zeroth_part\<close>: \<^verbatim>\<open>norm.T\<close> has shape (Kn, Ln, 1) for an
  (Ln, Kn) input and is broadcast against (K, L, 1). Entry \<open>(k, l)\<close> of the result.
\<close>

definition normed_part ::
  "nat ndarray2 \<Rightarrow> real list \<Rightarrow> real ndarray2 \<Rightarrow> (nat \<Rightarrow> real) \<Rightarrow> nat \<Rightarrow> nat \<Rightarrow> real" where
  "normed_part angmom_comps alphas nrm \<Delta> k l =
     at2 nrm (bidx (nrows nrm) l) (bidx (ncols nrm) k) *
     zeroth_part angmom_comps alphas \<Delta> (bidx (length alphas) k) (bidx (nrows angmom_comps) l)"

text \<open>
  \<^verbatim>\<open>np.tensordot(prim_coeffs, ..., (0, 0))\<close> sums over the first axis of both arguments,
  which must have the same length (ValueError otherwise); the result has shape
  (M, L, 1). Entry \<open>(m, l)\<close>.
\<close>

definition contraction ::
  "nat ndarray2 \<Rightarrow> real list \<Rightarrow> real ndarray2 \<Rightarrow> real ndarray2 \<Rightarrow> (nat \<Rightarrow> real) \<Rightarrow>
   nat \<Rightarrow> nat \<Rightarrow> nat \<Rightarrow> real" where
  "contraction angmom_comps alphas prim_coeffs nrm \<Delta> K m l =
     sum_list (map (\<lambda>k. at2 prim_coeffs k m * normed_part angmom_comps alphas nrm \<Delta> k l)
       [0..<K])"

text \<open>
  The function itself. \<^verbatim>\<open>coords.reshape(1, 3)\<close> raises ValueError unless the point has
  three entries; the two broadcasts and the tensordot raise ValueError on shapes that do
  not fit; \<^verbatim>\<open>flatten\<close> lists the (M, L, 1) result in C order.
\<close>

definition eval_contractions ::
  "real list \<Rightarrow> real \<Rightarrow> real \<Rightarrow> real \<Rightarrow> nat ndarray2 \<Rightarrow> real list \<Rightarrow> real ndarray2 \<Rightarrow>
   real ndarray2 \<Rightarrow> error + real list" where
  "eval_contractions coords R_x R_y R_z angmom_comps alphas prim_coeffs nrm =
     (if length coords \<noteq> 3 then Inl ValueError
      else
        and_then (broadcast_dim 3 (ncols angmom_comps)) (\<lambda>_.
        and_then (broadcast_dim (ncols nrm) (length alphas)) (\<lambda>K.
        and_then (broadcast_dim (nrows nrm) (nrows angmom_comps)) (\<lambda>L.
          if nrows prim_coeffs \<noteq> K then Inl ValueError
          else Inr (concat (map (\<lambda>m. map (\<lambda>l.
                 contraction angmom_comps alphas prim_coeffs nrm
                   (shift coords R_x R_y R_z) K m l) [0..<L])
                 [0..<ncols prim_coeffs]))))))"

section \<open>autograd's gradient of eval\_contractions\<close>

text \<open>
  \<^verbatim>\<open>grad(eval_contractions, argnum)\<close> is autograd's reverse mode: the function is run
  once while the primitives it calls are recorded, the result must hold exactly one
  number (TypeError otherwise), and the cotangent 1 of the result is then carried back
  through the recorded primitives in reverse order, each with the vector-Jacobian
  product the library defines for it.

  The backward pass divides (in the rule for \<^verbatim>\<open>np.prod\<close>), and numpy's quotient by zero is
  nan or inf, not an exception. A cotangent is therefore a \<open>real option\<close>, \<open>None\<close>
  standing for a float that is not finite. After the division the pass only multiplies,
  adds and negates, and each of these gives a non-finite float whenever an operand is
  one (also \<open>nan * 0\<close> and \<open>inf * 0\<close>), so \<open>None\<close> is absorbing.
\<close>

definition fdiv :: "real \<Rightarrow> real \<Rightarrow> real option" where
  "fdiv x y = (if y = 0 then None else Some (x / y))"

definition fmul :: "real option \<Rightarrow> real \<Rightarrow> real option" where
  "fmul g x = map_option (\<lambda>v. v * x) g"

definition fadd :: "real option \<Rightarrow> real option \<Rightarrow> real option" where
  "fadd g h = (case g of None \<Rightarrow> None | Some x \<Rightarrow> map_option (\<lambda>y. x + y) h)"

definition fneg :: "real option \<Rightarrow> real option" where
  "fneg g = map_option uminus g"

definition fsum :: "real option list \<Rightarrow> real option" where
  "fsum gs = foldr fadd gs (Some 0)"

text \<open>
  The backward pass runs only when the result has one entry, that is M = 1 and L = 1;
  the entries below are those at \<open>m = 0\<close> and \<open>l = 0\<close>. Cotangents are named after the
  array they belong to.

  \<^verbatim>\<open>flatten\<close> and \<^verbatim>\<open>tensordot\<close> are linear: the cotangent of \<^verbatim>\<open>norm * zeroth_part\<close> at
  primitive \<open>k\<close> is \<open>prim_coeffs[k, 0] * 1\<close>. The rule for \<^verbatim>\<open>*\<close> multiplies by the other
  operand, and where \<^verbatim>\<open>zeroth_part\<close> had been broadcast along the primitives the
  contributions are summed back to its shape: this is the cotangent of \<^verbatim>\<open>zeroth_part\<close>
  at primitive \<open>j\<close>.
\<close>

definition g_zeroth_part :: "real list \<Rightarrow> real ndarray2 \<Rightarrow> real ndarray2 \<Rightarrow> nat \<Rightarrow> real" where
  "g_zeroth_part alphas prim_coeffs nrm j =
     sum_list (map (\<lambda>k. at2 prim_coeffs k 0 * 1 * at2 nrm 0 (bidx (ncols nrm) k))
       (filter (\<lambda>k. bidx (length alphas) k = j) [0..<nrows prim_coeffs]))"

text \<open>
  The rule for \<^verbatim>\<open>np.prod\<close>: the cotangent times the product, repeated along the reduced
  axes, divided by the argument, \<^verbatim>\<open>g * ans / x\<close>. Where a factor is 0 this is \<open>0 / 0\<close>.
\<close>

definition g_factor ::
  "nat ndarray2 \<Rightarrow> real list \<Rightarrow> real ndarray2 \<Rightarrow> real ndarray2 \<Rightarrow> (nat \<Rightarrow> real) \<Rightarrow>
   nat \<Rightarrow> nat \<Rightarrow> real option" where
  "g_factor angmom_comps alphas prim_coeffs nrm \<Delta> j d =
     fdiv (g_zeroth_part alphas prim_coeffs nrm j * zeroth_part angmom_comps alphas \<Delta> j 0)
       (factor angmom_comps alphas \<Delta> j d 0)"

text \<open>
  \<^verbatim>\<open>coords ** angmom_comps * gauss\<close>: the left operand has no primitive axis, so its
  cotangent sums over the primitives; the right operand is \<^verbatim>\<open>gauss\<close>.
\<close>

definition g_monomial ::
  "nat ndarray2 \<Rightarrow> real list \<Rightarrow> real ndarray2 \<Rightarrow> real ndarray2 \<Rightarrow> (nat \<Rightarrow> real) \<Rightarrow>
   nat \<Rightarrow> real option" where
  "g_monomial angmom_comps alphas prim_coeffs nrm \<Delta> d =
     fsum (map (\<lambda>j. fmul (g_factor angmom_comps alphas prim_coeffs nrm \<Delta> j d)
                      (gauss alphas \<Delta> j d)) [0..<length alphas])"

definition g_gauss ::
  "nat ndarray2 \<Rightarrow> real list \<Rightarrow> real ndarray2 \<Rightarrow> real ndarray2 \<Rightarrow> (nat \<Rightarrow> real) \<Rightarrow>
   nat \<Rightarrow> nat \<Rightarrow> real option" where
  "g_gauss angmom_comps alphas prim_coeffs nrm \<Delta> j d =
     fmul (g_factor angmom_comps alphas prim_coeffs nrm \<Delta> j d) (monomial angmom_comps \<Delta> d 0)"

text \<open>
  The rule for \<^verbatim>\<open>x ** y\<close> in \<open>x\<close>: \<^verbatim>\<open>g * y * x ** where(y, y - 1, 1.)\<close>, the exponent
  \<open>y - 1\<close> being replaced by 1 where \<open>y\<close> is 0.
\<close>

definition g_coords_power ::
  "nat ndarray2 \<Rightarrow> real list \<Rightarrow> real ndarray2 \<Rightarrow> real ndarray2 \<Rightarrow> (nat \<Rightarrow> real) \<Rightarrow>
   nat \<Rightarrow> real option" where
  "g_coords_power angmom_comps alphas prim_coeffs nrm \<Delta> d =
     (let y = at2 angmom_comps 0 (bidx (ncols angmom_comps) d)
      in fmul (fmul (g_monomial angmom_comps alphas prim_coeffs nrm \<Delta> d) (real y))
           ((\<Delta> d) ^ (if y \<noteq> 0 then y - 1 else 1)))"

text \<open>
  \<^verbatim>\<open>np.exp\<close>: \<^verbatim>\<open>g * ans\<close>. Then \<^verbatim>\<open>-alphas * coords ** 2\<close> in its right operand, summed
  over the primitives, and \<^verbatim>\<open>coords ** 2\<close> by the power rule again.
\<close>

definition g_exponent ::
  "nat ndarray2 \<Rightarrow> real list \<Rightarrow> real ndarray2 \<Rightarrow> real ndarray2 \<Rightarrow> (nat \<Rightarrow> real) \<Rightarrow>
   nat \<Rightarrow> nat \<Rightarrow> real option" where
  "g_exponent angmom_comps alphas prim_coeffs nrm \<Delta> j d =
     fmul (g_gauss angmom_comps alphas prim_coeffs nrm \<Delta> j d) (gauss alphas \<Delta> j d)"

definition g_square ::
  "nat ndarray2 \<Rightarrow> real list \<Rightarrow> real ndarray2 \<Rightarrow> real ndarray2 \<Rightarrow> (nat \<Rightarrow> real) \<Rightarrow>
   nat \<Rightarrow> real option" where
  "g_square angmom_comps alphas prim_coeffs nrm \<Delta> d =
     fsum (map (\<lambda>j. fmul (g_exponent angmom_comps alphas prim_coeffs nrm \<Delta> j d)
                      (- (alphas ! j))) [0..<length alphas])"

definition g_coords_square ::
  "nat ndarray2 \<Rightarrow> real list \<Rightarrow> real ndarray2 \<Rightarrow> real ndarray2 \<Rightarrow> (nat \<Rightarrow> real) \<Rightarrow>
   nat \<Rightarrow> real option" where
  "g_coords_square angmom_comps alphas prim_coeffs nrm \<Delta> d =
     fmul (fmul (g_square angmom_comps alphas prim_coeffs nrm \<Delta> d) 2) ((\<Delta> d) ^ 1)"

text \<open>
  The shifted coordinates are used twice, so their cotangent is the sum of the two;
  \<^verbatim>\<open>coords - center\<close> negates it for \<^verbatim>\<open>center\<close>, and \<^verbatim>\<open>np.array([R_x, R_y, R_z])\<close> hands
  entry \<open>d\<close> to the \<open>d\<close>-th scalar.
\<close>

definition g_center ::
  "nat ndarray2 \<Rightarrow> real list \<Rightarrow> real ndarray2 \<Rightarrow> real ndarray2 \<Rightarrow> (nat \<Rightarrow> real) \<Rightarrow>
   nat \<Rightarrow> real option" where
  "g_center angmom_comps alphas prim_coeffs nrm \<Delta> d =
     fneg (fadd (g_coords_power angmom_comps alphas prim_coeffs nrm \<Delta> d)
                (g_coords_square angmom_comps alphas prim_coeffs nrm \<Delta> d))"

text \<open>
  \<^verbatim>\<open>grad(eval_contractions, argnum)\<close> applied to the arguments of \<^verbatim>\<open>eval_contractions\<close>;
  the arguments 1, 2 and 3 are \<^verbatim>\<open>R_x\<close>, \<^verbatim>\<open>R_y\<close> and \<^verbatim>\<open>R_z\<close>.
\<close>

definition grad_eval_contractions ::
  "nat \<Rightarrow> real list \<Rightarrow> real \<Rightarrow> real \<Rightarrow> real \<Rightarrow> nat ndarray2 \<Rightarrow> real list \<Rightarrow> real ndarray2 \<Rightarrow>
   real ndarray2 \<Rightarrow> error + real option" where
  "grad_eval_contractions argnum coords R_x R_y R_z angmom_comps alphas prim_coeffs nrm =
     and_then (eval_contractions coords R_x R_y R_z angmom_comps alphas prim_coeffs nrm)
       (\<lambda>ans. if length ans \<noteq> 1 then Inl TypeError
          else Inr (g_center angmom_comps alphas prim_coeffs nrm (shift coords R_x R_y R_z)
                      (argnum - 1)))"

section \<open>eval\_deriv\<close>

text \<open>
  \<^verbatim>\<open>np.apply_along_axis(func1d, 1, arr, ...)\<close> on a two-dimensional array calls
  \<^verbatim>\<open>func1d\<close> on each row in turn and collects the scalars it returns; it raises
  ValueError when there is no row to call it on, and an exception of \<^verbatim>\<open>func1d\<close> ends it.
\<close>

fun collect :: "(error + 'a) list \<Rightarrow> error + 'a list" where
  "collect [] = Inr []"
| "collect (r # rs) = and_then r (\<lambda>x. and_then (collect rs) (\<lambda>xs. Inr (x # xs)))"

definition apply_along_axis :: "(real list \<Rightarrow> error + 'a) \<Rightarrow> real ndarray2 \<Rightarrow> error + 'a list" where
  "apply_along_axis func1d arr =
     (if nrows arr = 0 then Inl ValueError
      else collect (map (\<lambda>i. func1d (row arr i)) [0..<nrows arr]))"

text \<open>\<^verbatim>\<open>np.vstack\<close> of one-dimensional arrays of one length, and \<^verbatim>\<open>.T\<close>.\<close>

definition vstack :: "'a list list \<Rightarrow> 'a ndarray2" where
  "vstack tup = \<lparr>nrows = length tup, ncols = length (hd tup), buffer = concat tup\<rparr>"

definition transposed :: "'a ndarray2 \<Rightarrow> 'a ndarray2" where
  "transposed A =
     \<lparr>nrows = ncols A, ncols = nrows A,
      buffer = concat (map (\<lambda>i. map (\<lambda>j. at2 A j i) [0..<nrows A]) [0..<ncols A])\<rparr>"

text \<open>
  \<^verbatim>\<open>R_x, R_y, R_z = center\<close> raises ValueError unless \<^verbatim>\<open>center\<close> has three entries. The
  parameter \<^verbatim>\<open>orders\<close> may be any object.
\<close>

definition eval_deriv ::
  "real ndarray2 \<Rightarrow> 'o \<Rightarrow> real list \<Rightarrow> nat ndarray2 \<Rightarrow> real list \<Rightarrow> real ndarray2 \<Rightarrow>
   real ndarray2 \<Rightarrow> error + real option ndarray2" where
  "eval_deriv coords orders center angmom_comps alphas prim_coeffs nrm =
     (case center of
        [R_x, R_y, R_z] \<Rightarrow>
          and_then (apply_along_axis (\<lambda>p. grad_eval_contractions 1 p R_x R_y R_z
                      angmom_comps alphas prim_coeffs nrm) coords) (\<lambda>grad_x.
          and_then (apply_along_axis (\<lambda>p. grad_eval_contractions 2 p R_x R_y R_z
                      angmom_comps alphas prim_coeffs nrm) coords) (\<lambda>grad_y.
          and_then (apply_along_axis (\<lambda>p. grad_eval_contractions 3 p R_x R_y R_z
                      angmom_comps alphas prim_coeffs nrm) coords) (\<lambda>grad_z.
            Inr (transposed (vstack [grad_x, grad_y, grad_z])))))
      | _ \<Rightarrow> Inl ValueError)"

section \<open>Operations on the inputs that the properties speak of\<close>

text \<open>Row \<open>i\<close> of an array as a 1 x n array, and column \<open>j\<close> as an n x 1 array.\<close>

definition single_row :: "'a ndarray2 \<Rightarrow> nat \<Rightarrow> 'a ndarray2" where
  "single_row A i = \<lparr>nrows = 1, ncols = ncols A, buffer = row A i\<rparr>"

definition column :: "'a ndarray2 \<Rightarrow> nat \<Rightarrow> 'a ndarray2" where
  "column A j = \<lparr>nrows = nrows A, ncols = 1, buffer = map (\<lambda>i. at2 A i j) [0..<nrows A]\<rparr>"

text \<open>
  A reordering \<open>\<sigma>\<close> of the primitives, applied to a vector, to the rows and to the
  columns of an array: position \<open>k\<close> of the result holds what was at \<open>\<sigma> k\<close>.
\<close>

definition perm_vec :: "(nat \<Rightarrow> nat) \<Rightarrow> 'a list \<Rightarrow> 'a list" where
  "perm_vec \<sigma> xs = map (\<lambda>k. xs ! \<sigma> k) [0..<length xs]"

definition perm_rows :: "(nat \<Rightarrow> nat) \<Rightarrow> 'a ndarray2 \<Rightarrow> 'a ndarray2" where
  "perm_rows \<sigma> A =
     \<lparr>nrows = nrows A, ncols = ncols A,
      buffer = concat (map (\<lambda>i. map (\<lambda>j. at2 A (\<sigma> i) j) [0..<ncols A]) [0..<nrows A])\<rparr>"

definition perm_cols :: "(nat \<Rightarrow> nat) \<Rightarrow> 'a ndarray2 \<Rightarrow> 'a ndarray2" where
  "perm_cols \<sigma> A =
     \<lparr>nrows = nrows A, ncols = ncols A,
      buffer = concat (map (\<lambda>i. map (\<lambda>j. at2 A i (\<sigma> j)) [0..<ncols A]) [0..<nrows A])\<rparr>"

text \<open>\<^verbatim>\<open>p + t\<close> for two one-dimensional arrays of the same length.\<close>

definition translate :: "real list \<Rightarrow> real list \<Rightarrow> real list" where
  "translate p t = map (\<lambda>(x, y). x + y) (zip p t)"

text \<open>
  The number in the result of \<^verbatim>\<open>eval_contractions\<close> when it returns exactly one, for
  speaking of its derivative.
\<close>

definition single_output :: "error + real list \<Rightarrow> real" where
  "single_output r = (case r of Inr [y] \<Rightarrow> y | _ \<Rightarrow> 0)"

section \<open>The arrays in memory\<close>

text \<open>
  The functions above take and return values. Whether a call writes to an array it was given is
  a question about storage, so the same statements are modelled once more over an explicit
  memory: a list of buffers, addressed by position. A buffer is the data of one allocated numpy
  array, in C order. \<^verbatim>\<open>Floats\<close> holds float64 data, \<^verbatim>\<open>Ints\<close> holds the integer data of
  \<^verbatim>\<open>angmom_comps\<close>, and \<^verbatim>\<open>Cotangents\<close> holds the arrays of the backward pass, whose entries may
  be non-finite. Allocation appends a buffer and returns its address.
\<close>

datatype buffer = Floats "real list" | Ints "nat list" | Cotangents "real option list"

type_synonym memory = "buffer list"

definition alloc :: "buffer \<Rightarrow> memory \<Rightarrow> nat \<times> memory" where
  "alloc b h = (length h, h @ [b])"

definition floats :: "memory \<Rightarrow> nat \<Rightarrow> real list" where
  "floats h a = (case h ! a of Floats xs \<Rightarrow> xs | _ \<Rightarrow> [])"

definition ints :: "memory \<Rightarrow> nat \<Rightarrow> nat list" where
  "ints h a = (case h ! a of Ints ns \<Rightarrow> ns | _ \<Rightarrow> [])"

text \<open>
  An argument array is a view: the address of the buffer that owns the data, and the part of it
  the view shows. A one-dimensional view has an offset, since \<^verbatim>\<open>np.apply_along_axis\<close> hands rows
  of \<^verbatim>\<open>coords\<close> to the function as views into the buffer of \<^verbatim>\<open>coords\<close>. The \<^verbatim>\<open>load\<close> functions read
  the value of a view from memory.
\<close>

record view1 =
  base1 :: nat
  offset1 :: nat
  size1 :: nat

record view2 =
  base2 :: nat
  rows2 :: nat
  cols2 :: nat

definition get1 :: "memory \<Rightarrow> view1 \<Rightarrow> nat \<Rightarrow> real" where
  "get1 h v i = floats h (base1 v) ! (offset1 v + i)"

definition load1 :: "memory \<Rightarrow> view1 \<Rightarrow> real list" where
  "load1 h v = map (get1 h v) [0..<size1 v]"

definition load2 :: "memory \<Rightarrow> view2 \<Rightarrow> real ndarray2" where
  "load2 h v = \<lparr>nrows = rows2 v, ncols = cols2 v, buffer = floats h (base2 v)\<rparr>"

definition load2i :: "memory \<Rightarrow> view2 \<Rightarrow> nat ndarray2" where
  "load2i h v = \<lparr>nrows = rows2 v, ncols = cols2 v, buffer = ints h (base2 v)\<rparr>"

text \<open>
  The data of a new array of shape (m, n) or (m, n, p), entry by entry, in C order.
\<close>

definition grid2 :: "nat \<Rightarrow> nat \<Rightarrow> (nat \<Rightarrow> nat \<Rightarrow> 'a) \<Rightarrow> 'a list" where
  "grid2 m n f = concat (map (\<lambda>i. map (\<lambda>j. f i j) [0..<n]) [0..<m])"

definition grid3 :: "nat \<Rightarrow> nat \<Rightarrow> nat \<Rightarrow> (nat \<Rightarrow> nat \<Rightarrow> nat \<Rightarrow> 'a) \<Rightarrow> 'a list" where
  "grid3 m n p f = grid2 (m * n) p (\<lambda>ij l. f (ij div n) (ij mod n) l)"

text \<open>
  \<^verbatim>\<open>coords.reshape(1, 3)\<close> and \<^verbatim>\<open>coords.T[np.newaxis, ...]\<close> are views of the argument and
  allocate nothing. \<^verbatim>\<open>center = np.array([R_x, R_y, R_z])\<close> allocates, and \<^verbatim>\<open>coords - center\<close>
  allocates the array that the name \<^verbatim>\<open>coords\<close> is then bound to; the argument's buffer is read,
  not written.
\<close>

definition subtract_center :: "view1 \<Rightarrow> real \<Rightarrow> real \<Rightarrow> real \<Rightarrow> memory \<Rightarrow> nat \<times> memory" where
  "subtract_center coords R_x R_y R_z h =
     (let (center, h1) = alloc (Floats [R_x, R_y, R_z]) h
      in alloc (Floats (map (\<lambda>d. get1 h1 coords d - floats h1 center ! d) [0..<3])) h1)"

text \<open>
  \<^verbatim>\<open>gauss = np.exp(-alphas * coords ** 2)\<close>: one new array for each of \<^verbatim>\<open>-alphas\<close>,
  \<^verbatim>\<open>coords ** 2\<close>, the product and \<^verbatim>\<open>np.exp\<close>.
\<close>

definition compute_gauss :: "view1 \<Rightarrow> nat \<Rightarrow> memory \<Rightarrow> nat \<times> memory" where
  "compute_gauss alphas coords h =
     (let K = size1 alphas;
          (neg, h1) = alloc (Floats (map (\<lambda>k. - get1 h alphas k) [0..<K])) h;
          (sq, h2) = alloc (Floats (map (\<lambda>d. (floats h1 coords ! d) ^ 2) [0..<3])) h1;
          (ex, h3) = alloc (Floats (grid2 K 3 (\<lambda>k d. floats h2 neg ! k * floats h2 sq ! d))) h2
      in alloc (Floats (map exp (floats h3 ex))) h3)"

text \<open>
  \<^verbatim>\<open>zeroth_part = np.prod(coords ** angmom_comps * gauss, axis=(0, 2))\<close>: one new array for each
  of the power, the product and \<^verbatim>\<open>np.prod\<close>. \<^verbatim>\<open>angmom_comps.T[...]\<close> is a view.
\<close>

definition compute_zeroth_part :: "view2 \<Rightarrow> nat \<Rightarrow> nat \<Rightarrow> nat \<Rightarrow> memory \<Rightarrow> nat \<times> memory" where
  "compute_zeroth_part angmom_comps coords gauss_a K h =
     (let L = rows2 angmom_comps; A = cols2 angmom_comps;
          (pw, h1) = alloc (Floats (grid2 3 L (\<lambda>d l.
             (floats h coords ! d) ^ (ints h (base2 angmom_comps) ! (l * A + bidx A d))))) h;
          (pr, h2) = alloc (Floats (grid3 K 3 L (\<lambda>k d l.
             floats h1 pw ! (d * L + l) * floats h1 gauss_a ! (k * 3 + d)))) h1
      in alloc (Floats (grid2 K L (\<lambda>k l.
             prod_list (map (\<lambda>d. floats h2 pr ! ((k * 3 + d) * L + l)) [0..<3])))) h2)"

text \<open>
  \<^verbatim>\<open>np.tensordot(prim_coeffs, norm * zeroth_part, (0, 0)).flatten()\<close>: one new array for each of
  \<^verbatim>\<open>norm * zeroth_part\<close>, \<^verbatim>\<open>np.tensordot\<close> and \<^verbatim>\<open>flatten\<close>, which always copies.
  \<^verbatim>\<open>norm.T[:, :, np.newaxis]\<close> is a view.
\<close>

definition contract :: "view2 \<Rightarrow> view2 \<Rightarrow> nat \<Rightarrow> nat \<Rightarrow> nat \<Rightarrow> nat \<Rightarrow> nat \<Rightarrow> memory \<Rightarrow> nat \<times> memory" where
  "contract prim_coeffs nrm zeroth K L K' L' h =
     (let M = cols2 prim_coeffs;
          (nm, h1) = alloc (Floats (grid2 K' L' (\<lambda>k l.
             floats h (base2 nrm) ! (bidx (rows2 nrm) l * cols2 nrm + bidx (cols2 nrm) k) *
             floats h zeroth ! (bidx K k * L + bidx L l)))) h;
          (td, h2) = alloc (Floats (grid2 M L' (\<lambda>m l.
             sum_list (map (\<lambda>k. floats h1 (base2 prim_coeffs) ! (k * M + m) *
                               floats h1 nm ! (k * L' + l)) [0..<K'])))) h1
      in alloc (Floats (floats h2 td)) h2)"

text \<open>
  \<^verbatim>\<open>eval_contractions\<close> over the memory. It returns the address of the result, or the error,
  together with the memory after the call. An error is raised where the source raises it, after
  the allocations of the statements that ran before.
\<close>

definition eval_contractions_mem ::
  "view1 \<Rightarrow> real \<Rightarrow> real \<Rightarrow> real \<Rightarrow> view2 \<Rightarrow> view1 \<Rightarrow> view2 \<Rightarrow> view2 \<Rightarrow> memory \<Rightarrow>
   (error + nat) \<times> memory" where
  "eval_contractions_mem coords R_x R_y R_z angmom_comps alphas prim_coeffs nrm h =
     (if size1 coords \<noteq> 3 then (Inl ValueError, h)
      else
        let (shifted, h1) = subtract_center coords R_x R_y R_z h;
            (gauss_a, h2) = compute_gauss alphas shifted h1
        in case broadcast_dim 3 (cols2 angmom_comps) of
             Inl e \<Rightarrow> (Inl e, h2)
           | Inr _ \<Rightarrow>
               let (zeroth, h3) =
                     compute_zeroth_part angmom_comps shifted gauss_a (size1 alphas) h2
               in case broadcast_dim (cols2 nrm) (size1 alphas) of
                    Inl e \<Rightarrow> (Inl e, h3)
                  | Inr K' \<Rightarrow>
                      (case broadcast_dim (rows2 nrm) (rows2 angmom_comps) of
                         Inl e \<Rightarrow> (Inl e, h3)
                       | Inr L' \<Rightarrow>
                           if rows2 prim_coeffs \<noteq> K' then
                             (Inl ValueError,
                              snd (alloc (Floats (grid2 K' L' (\<lambda>k l.
                                floats h3 (base2 nrm) !
                                  (bidx (rows2 nrm) l * cols2 nrm + bidx (cols2 nrm) k) *
                                floats h3 zeroth !
                                  (bidx (size1 alphas) k * rows2 angmom_comps +
                                   bidx (rows2 angmom_comps) l)))) h3))
                           else
                             (let (out, h4) = contract prim_coeffs nrm zeroth (size1 alphas)
                                    (rows2 angmom_comps) K' L' h3
                              in (Inr out, h4))))"

text \<open>
  \<^verbatim>\<open>grad(eval_contractions, argnum)\<close> over the memory: the forward pass is the function itself,
  and the backward pass allocates one new array for each cotangent it computes, from
  \<^verbatim>\<open>g_zeroth_part\<close> to \<^verbatim>\<open>g_center\<close>. None of autograd's vector-Jacobian products writes to an
  array of the forward pass.
\<close>

definition cotangents :: "memory \<Rightarrow> nat \<Rightarrow> real option list" where
  "cotangents h a = (case h ! a of Cotangents gs \<Rightarrow> gs | _ \<Rightarrow> [])"

definition backward_buffers ::
  "nat ndarray2 \<Rightarrow> real list \<Rightarrow> real ndarray2 \<Rightarrow> real ndarray2 \<Rightarrow> (nat \<Rightarrow> real) \<Rightarrow> buffer list" where
  "backward_buffers angmom_comps alphas prim_coeffs nrm \<Delta> =
     (let K = length alphas in
      [Floats (map (g_zeroth_part alphas prim_coeffs nrm) [0..<K]),
       Cotangents (grid2 K 3 (g_factor angmom_comps alphas prim_coeffs nrm \<Delta>)),
       Cotangents (map (g_monomial angmom_comps alphas prim_coeffs nrm \<Delta>) [0..<3]),
       Cotangents (grid2 K 3 (g_gauss angmom_comps alphas prim_coeffs nrm \<Delta>)),
       Cotangents (map (g_coords_power angmom_comps alphas prim_coeffs nrm \<Delta>) [0..<3]),
       Cotangents (grid2 K 3 (g_exponent angmom_comps alphas prim_coeffs nrm \<Delta>)),
       Cotangents (map (g_square angmom_comps alphas prim_coeffs nrm \<Delta>) [0..<3]),
       Cotangents (map (g_coords_square angmom_comps alphas prim_coeffs nrm \<Delta>) [0..<3]),
       Cotangents (map (g_center angmom_comps alphas prim_coeffs nrm \<Delta>) [0..<3])])"

definition grad_mem ::
  "nat \<Rightarrow> view1 \<Rightarrow> real \<Rightarrow> real \<Rightarrow> real \<Rightarrow> view2 \<Rightarrow> view1 \<Rightarrow> view2 \<Rightarrow> view2 \<Rightarrow> memory \<Rightarrow>
   (error + real option) \<times> memory" where
  "grad_mem argnum coords R_x R_y R_z angmom_comps alphas prim_coeffs nrm h =
     (case eval_contractions_mem coords R_x R_y R_z angmom_comps alphas prim_coeffs nrm h of
        (Inl e, h1) \<Rightarrow> (Inl e, h1)
      | (Inr ans, h1) \<Rightarrow>
          if length (floats h1 ans) \<noteq> 1 then (Inl TypeError, h1)
          else
            let h2 = h1 @ backward_buffers (load2i h1 angmom_comps) (load1 h1 alphas)
                       (load2 h1 prim_coeffs) (load2 h1 nrm)
                       (shift (load1 h1 coords) R_x R_y R_z)
            in (Inr (cotangents h2 (length h2 - 1) ! (argnum - 1)), h2))"

text \<open>
  \<^verbatim>\<open>np.apply_along_axis(func1d, 1, arr)\<close> over the memory: the function is called on the rows of
  \<^verbatim>\<open>arr\<close>, which are views into its buffer, in order, each call starting from the memory the call
  before left; the values are collected in a new array.
\<close>

fun rows_mem ::
  "(view1 \<Rightarrow> memory \<Rightarrow> (error + 'a) \<times> memory) \<Rightarrow> view1 list \<Rightarrow> memory \<Rightarrow>
   (error + 'a list) \<times> memory" where
  "rows_mem func1d [] h = (Inr [], h)"
| "rows_mem func1d (v # vs) h =
     (case func1d v h of
        (Inl e, h1) \<Rightarrow> (Inl e, h1)
      | (Inr x, h1) \<Rightarrow>
          (case rows_mem func1d vs h1 of
             (Inl e, h2) \<Rightarrow> (Inl e, h2)
           | (Inr xs, h2) \<Rightarrow> (Inr (x # xs), h2)))"

definition row_view :: "view2 \<Rightarrow> nat \<Rightarrow> view1" where
  "row_view arr i = \<lparr>base1 = base2 arr, offset1 = i * cols2 arr, size1 = cols2 arr\<rparr>"

definition apply_along_axis_mem ::
  "(view1 \<Rightarrow> memory \<Rightarrow> (error + real option) \<times> memory) \<Rightarrow> view2 \<Rightarrow> memory \<Rightarrow>
   (error + nat) \<times> memory" where
  "apply_along_axis_mem func1d arr h =
     (if rows2 arr = 0 then (Inl ValueError, h)
      else case rows_mem func1d (map (row_view arr) [0..<rows2 arr]) h of
             (Inl e, h1) \<Rightarrow> (Inl e, h1)
           | (Inr xs, h1) \<Rightarrow> (Inr (length h1), h1 @ [Cotangents xs]))"

text \<open>
  \<^verbatim>\<open>eval_deriv\<close> over the memory. \<^verbatim>\<open>R_x, R_y, R_z = center\<close> reads \<^verbatim>\<open>center\<close>;
  \<^verbatim>\<open>np.vstack\<close> allocates the 3 x N array of the three gradients, and \<^verbatim>\<open>.T\<close> is a view of it,
  which \<^verbatim>\<open>load_T\<close> reads.
\<close>

definition eval_deriv_mem ::
  "view2 \<Rightarrow> 'o \<Rightarrow> view1 \<Rightarrow> view2 \<Rightarrow> view1 \<Rightarrow> view2 \<Rightarrow> view2 \<Rightarrow> memory \<Rightarrow>
   (error + nat) \<times> memory" where
  "eval_deriv_mem coords orders center angmom_comps alphas prim_coeffs nrm h =
     (if size1 center \<noteq> 3 then (Inl ValueError, h)
      else
        let R_x = get1 h center 0; R_y = get1 h center 1; R_z = get1 h center 2
        in case apply_along_axis_mem (\<lambda>p. grad_mem 1 p R_x R_y R_z angmom_comps alphas
                  prim_coeffs nrm) coords h of
             (Inl e, h1) \<Rightarrow> (Inl e, h1)
           | (Inr grad_x, h1) \<Rightarrow>
               (case apply_along_axis_mem (\<lambda>p. grad_mem 2 p R_x R_y R_z angmom_comps alphas
                        prim_coeffs nrm) coords h1 of
                  (Inl e, h2) \<Rightarrow> (Inl e, h2)
                | (Inr grad_y, h2) \<Rightarrow>
                    (case apply_along_axis_mem (\<lambda>p. grad_mem 3 p R_x R_y R_z angmom_comps
                             alphas prim_coeffs nrm) coords h2 of
                       (Inl e, h3) \<Rightarrow> (Inl e, h3)
                     | (Inr grad_z, h3) \<Rightarrow>
                         (Inr (length h3),
                          h3 @ [Cotangents (cotangents h3 grad_x @ cotangents h3 grad_y @
                                            cotangents h3 grad_z)]))))"

definition load_T :: "memory \<Rightarrow> nat \<Rightarrow> nat \<Rightarrow> real option ndarray2" where
  "load_T h a N = transposed \<lparr>nrows = 3, ncols = N, buffer = cotangents h a\<rparr>"

text \<open>
  What the caller sees of a call: the error, or the value of the array at the returned address
  in the memory after the call.
\<close>

definition returned_floats :: "(error + nat) \<times> memory \<Rightarrow> error + real list" where
  "returned_floats r = (case fst r of Inl e \<Rightarrow> Inl e | Inr a \<Rightarrow> Inr (floats (snd r) a))"

definition returned_T :: "nat \<Rightarrow> (error + nat) \<times> memory \<Rightarrow> error + real option ndarray2" where
  "returned_T N r = (case fst r of Inl e \<Rightarrow> Inl e | Inr a \<Rightarrow> Inr (load_T (snd r) a N))"

section \<open>float64 arithmetic\<close>

text \<open>
  A float64 is a finite number, one of the two infinities, or nan. A finite double is modelled
  by the real number it denotes; the sign of a zero is not kept, since no operation of
  \<^verbatim>\<open>eval_contractions\<close> divides and so none tells the two zeros apart.
\<close>

datatype f64 = Num real | PInf | NInf | NaN

text \<open>
  Rounding to the nearest double, ties to even (IEEE 754 binary64: 53 significant bits,
  least exponent \<open>- 1074\<close> with gradual underflow, overflow to infinity from \<open>2 ^ 1024\<close> on).
  \<open>ilog2 x\<close> is the integer part of the binary logarithm of \<open>x > 0\<close>, computed from the bit
  length of an integer; \<open>q\<close> is the spacing of the doubles around \<open>x\<close>.
\<close>

definition pow2 :: "int \<Rightarrow> real" where
  "pow2 e = (if 0 \<le> e then 2 ^ nat e else 1 / 2 ^ nat (- e))"

definition ilog2 :: "real \<Rightarrow> int" where
  "ilog2 x = (if 1 \<le> x then bitlen \<lfloor>x\<rfloor> - 1 else - bitlen (\<lceil>1 / x\<rceil> - 1))"

definition round_even :: "real \<Rightarrow> int" where
  "round_even r =
     (let f = \<lfloor>r\<rfloor>
      in if r - of_int f < 1 / 2 then f
         else if 1 / 2 < r - of_int f then f + 1
         else if even f then f else f + 1)"

definition round64 :: "real \<Rightarrow> f64" where
  "round64 x =
     (if x = 0 then Num 0
      else
        let q = pow2 (max (ilog2 \<bar>x\<bar> - 52) (- 1074));
            y = of_int (round_even (x / q)) * q
        in if 2 ^ 1024 \<le> \<bar>y\<bar> then (if 0 < x then PInf else NInf) else Num y)"

text \<open>
  The arithmetic operations: the exact result rounded, and the IEEE rules for infinities and
  nan. \<^verbatim>\<open>np.exp\<close> and the power with an integer exponent are taken as correctly rounded; the
  C library's are within one unit in the last place of that, and exact where this theory
  evaluates them (\<open>exp 0 = 1\<close>, \<open>x ** 0 = 1\<close>, also for nan and the infinities).
\<close>

definition positive :: "f64 \<Rightarrow> bool" where
  "positive a = (case a of Num x \<Rightarrow> 0 < x | PInf \<Rightarrow> True | _ \<Rightarrow> False)"

definition neg64 :: "f64 \<Rightarrow> f64" where
  "neg64 a = (case a of Num x \<Rightarrow> Num (- x) | PInf \<Rightarrow> NInf | NInf \<Rightarrow> PInf | NaN \<Rightarrow> NaN)"

definition add64 :: "f64 \<Rightarrow> f64 \<Rightarrow> f64" where
  "add64 a b =
     (case (a, b) of
        (Num x, Num y) \<Rightarrow> round64 (x + y)
      | (Num x, _) \<Rightarrow> b
      | (_, Num y) \<Rightarrow> a
      | _ \<Rightarrow> if a = b then a else NaN)"

definition sub64 :: "f64 \<Rightarrow> f64 \<Rightarrow> f64" where
  "sub64 a b = add64 a (neg64 b)"

definition mul64 :: "f64 \<Rightarrow> f64 \<Rightarrow> f64" where
  "mul64 a b =
     (case (a, b) of
        (Num x, Num y) \<Rightarrow> round64 (x * y)
      | _ \<Rightarrow>
          if a = NaN \<or> b = NaN \<or> a = Num 0 \<or> b = Num 0 then NaN
          else if positive a = positive b then PInf else NInf)"

definition exp64 :: "f64 \<Rightarrow> f64" where
  "exp64 a = (case a of Num x \<Rightarrow> round64 (exp x) | PInf \<Rightarrow> PInf | NInf \<Rightarrow> Num 0 | NaN \<Rightarrow> NaN)"

definition pow64 :: "f64 \<Rightarrow> nat \<Rightarrow> f64" where
  "pow64 a n =
     (if n = 0 then Num 1
      else case a of
             Num x \<Rightarrow> round64 (x ^ n)
           | PInf \<Rightarrow> PInf
           | NInf \<Rightarrow> (if odd n then NInf else PInf)
           | NaN \<Rightarrow> NaN)"

text \<open>
  \<^verbatim>\<open>np.prod\<close> multiplies along the axis in index order, starting from the first entry;
  \<^verbatim>\<open>np.tensordot\<close> accumulates the products \<open>a[k] * b[k]\<close> in index order, starting from 0.
  The argument of \<open>dot64\<close> is the list of the pairs \<open>(a[k], b[k])\<close>.
\<close>

definition prod64 :: "f64 list \<Rightarrow> f64" where
  "prod64 xs = (case xs of [] \<Rightarrow> Num 1 | x # ys \<Rightarrow> foldl mul64 x ys)"

definition dot64 :: "(f64 \<times> f64) list \<Rightarrow> f64" where
  "dot64 ps = foldl (\<lambda>acc (c, b). add64 acc (mul64 c b)) (Num 0) ps"

text \<open>
  \<^verbatim>\<open>eval_contractions\<close>, statement by statement as in the section on the real model, with the
  float64 operations: \<^verbatim>\<open>coords - center\<close>, \<^verbatim>\<open>np.exp(-alphas * coords ** 2)\<close>,
  \<^verbatim>\<open>coords ** angmom_comps\<close>, their product, \<^verbatim>\<open>np.prod(..., axis=(0, 2))\<close>,
  \<^verbatim>\<open>norm * zeroth_part\<close>, and the pairs of factors that \<^verbatim>\<open>np.tensordot\<close> contracts for the entry
  \<open>(m, l)\<close> of the result.
\<close>

definition shift64 :: "f64 list \<Rightarrow> f64 \<Rightarrow> f64 \<Rightarrow> f64 \<Rightarrow> nat \<Rightarrow> f64" where
  "shift64 coords R_x R_y R_z d = sub64 (coords ! d) ([R_x, R_y, R_z] ! d)"

definition gauss64 :: "f64 list \<Rightarrow> (nat \<Rightarrow> f64) \<Rightarrow> nat \<Rightarrow> nat \<Rightarrow> f64" where
  "gauss64 alphas \<Delta> k d = exp64 (mul64 (neg64 (alphas ! k)) (pow64 (\<Delta> d) 2))"

definition monomial64 :: "nat ndarray2 \<Rightarrow> (nat \<Rightarrow> f64) \<Rightarrow> nat \<Rightarrow> nat \<Rightarrow> f64" where
  "monomial64 angmom_comps \<Delta> d l =
     pow64 (\<Delta> d) (at2 angmom_comps l (bidx (ncols angmom_comps) d))"

definition factor64 ::
  "nat ndarray2 \<Rightarrow> f64 list \<Rightarrow> (nat \<Rightarrow> f64) \<Rightarrow> nat \<Rightarrow> nat \<Rightarrow> nat \<Rightarrow> f64" where
  "factor64 angmom_comps alphas \<Delta> k d l =
     mul64 (monomial64 angmom_comps \<Delta> d l) (gauss64 alphas \<Delta> k d)"

definition zeroth_part64 ::
  "nat ndarray2 \<Rightarrow> f64 list \<Rightarrow> (nat \<Rightarrow> f64) \<Rightarrow> nat \<Rightarrow> nat \<Rightarrow> f64" where
  "zeroth_part64 angmom_comps alphas \<Delta> k l =
     prod64 (map (\<lambda>d. factor64 angmom_comps alphas \<Delta> k d l) [0..<3])"

definition normed_part64 ::
  "nat ndarray2 \<Rightarrow> f64 list \<Rightarrow> f64 ndarray2 \<Rightarrow> (nat \<Rightarrow> f64) \<Rightarrow> nat \<Rightarrow> nat \<Rightarrow> f64" where
  "normed_part64 angmom_comps alphas nrm \<Delta> k l =
     mul64 (at2 nrm (bidx (nrows nrm) l) (bidx (ncols nrm) k))
       (zeroth_part64 angmom_comps alphas \<Delta> (bidx (length alphas) k)
          (bidx (nrows angmom_comps) l))"

definition tensordot_pairs ::
  "nat ndarray2 \<Rightarrow> f64 list \<Rightarrow> f64 ndarray2 \<Rightarrow> f64 ndarray2 \<Rightarrow> (nat \<Rightarrow> f64) \<Rightarrow>
   nat \<Rightarrow> nat \<Rightarrow> nat \<Rightarrow> (f64 \<times> f64) list" where
  "tensordot_pairs angmom_comps alphas prim_coeffs nrm \<Delta> K m l =
     map (\<lambda>k. (at2 prim_coeffs k m, normed_part64 angmom_comps alphas nrm \<Delta> k l)) [0..<K]"

definition eval_contractions_f64 ::
  "f64 list \<Rightarrow> f64 \<Rightarrow> f64 \<Rightarrow> f64 \<Rightarrow> nat ndarray2 \<Rightarrow> f64 list \<Rightarrow> f64 ndarray2 \<Rightarrow>
   f64 ndarray2 \<Rightarrow> error + f64 list" where
  "eval_contractions_f64 coords R_x R_y R_z angmom_comps alphas prim_coeffs nrm =
     (if length coords \<noteq> 3 then Inl ValueError
      else
        and_then (broadcast_dim 3 (ncols angmom_comps)) (\<lambda>_.
        and_then (broadcast_dim (ncols nrm) (length alphas)) (\<lambda>K.
        and_then (broadcast_dim (nrows nrm) (nrows angmom_comps)) (\<lambda>L.
          if nrows prim_coeffs \<noteq> K then Inl ValueError
          else Inr (concat (map (\<lambda>m. map (\<lambda>l.
                 dot64 (tensordot_pairs angmom_comps alphas prim_coeffs nrm
                   (shift64 coords R_x R_y R_z) K m l)) [0..<L])
                 [0..<ncols prim_coeffs]))))))"

text \<open>
  The reordering that exchanges the primitives 1 and 2.
\<close>

definition swap12 :: "nat \<Rightarrow> nat" where
  "swap12 k = (if k = 1 then 2 else if k = 2 then 1 else k)"

section \<open>Auxiliary facts about lists, sums and broadcasting\<close>

lemma upt_3: "[0..<3] = [0, 1, 2]"
  by (simp add: upt_rec)

lemma bidx_less: "i < n \<Longrightarrow> bidx n i = i"
  by (auto simp: bidx_def)

lemma grid_length: "length (concat (map (\<lambda>m. map (f m) [0..<L]) [0..<M])) = M * L"
  by (induction M) simp_all

lemma grid_nth:
  "m < M \<Longrightarrow> l < L \<Longrightarrow> concat (map (\<lambda>m. map (f m) [0..<L]) [0..<M]) ! (m * L + l) = f m l"
proof (induction M)
  case 0
  then show ?case by simp
next
  case (Suc M)
  show ?case
  proof (cases "m < M")
    case True
    have "m * L + l < Suc m * L"
      using Suc.prems(2) by simp
    also have "\<dots> \<le> M * L"
      using True by (intro mult_le_mono1) simp
    finally show ?thesis
      using Suc True by (simp add: nth_append grid_length)
  next
    case False
    then have "m = M" using Suc.prems(1) by simp
    then show ?thesis using Suc.prems(2) by (simp add: nth_append grid_length)
  qed
qed

lemma sum_list_upt: "sum_list (map f [0..<n]) = (\<Sum>k<n. f k)"
  by (simp add: interv_sum_list_conv_sum_set_nat atLeast0LessThan)

lemma prod_list_3: "prod_list (map f [0..<3]) = (\<Prod>d<3. (f d :: real))"
  by (simp add: upt_3 numeral_3_eq_3 lessThan_Suc mult.assoc)

lemma grid_cong:
  "(\<And>m l. m < M \<Longrightarrow> l < L \<Longrightarrow> f m l = g m l) \<Longrightarrow>
   concat (map (\<lambda>m. map (f m) [0..<L]) [0..<M]) = concat (map (\<lambda>m. map (g m) [0..<L]) [0..<M])"
  by (intro arg_cong [where f = concat] map_cong refl) simp

lemma shaped_single_row: "shaped (Suc 0) (ncols A) (single_row A i)"
  by (simp add: shaped_def single_row_def row_def)

lemma at2_single_row: "j < ncols A \<Longrightarrow> at2 (single_row A i) 0 j = at2 A i j"
  by (simp add: single_row_def row_def at2_def)

lemma shaped_column: "shaped (nrows A) (Suc 0) (column A j)"
  by (simp add: shaped_def column_def)

lemma at2_column: "i < nrows A \<Longrightarrow> at2 (column A j) i 0 = at2 A i j"
  by (simp add: column_def at2_def)

lemma shaped_perm_rows: "shaped (nrows A) (ncols A) (perm_rows \<sigma> A)"
  by (simp add: shaped_def perm_rows_def grid_length)

lemma at2_perm_rows: "i < nrows A \<Longrightarrow> j < ncols A \<Longrightarrow> at2 (perm_rows \<sigma> A) i j = at2 A (\<sigma> i) j"
  using grid_nth [of i "nrows A" j "ncols A" "\<lambda>i j. at2 A (\<sigma> i) j"]
  by (simp add: perm_rows_def at2_def)

lemma shaped_perm_cols: "shaped (nrows A) (ncols A) (perm_cols \<sigma> A)"
  by (simp add: shaped_def perm_cols_def grid_length)

lemma at2_perm_cols: "i < nrows A \<Longrightarrow> j < ncols A \<Longrightarrow> at2 (perm_cols \<sigma> A) i j = at2 A i (\<sigma> j)"
  using grid_nth [of i "nrows A" j "ncols A" "\<lambda>i j. at2 A i (\<sigma> j)"]
  by (simp add: perm_cols_def at2_def)

section \<open>The value of eval\_contractions\<close>

text \<open>On arrays of the documented shapes nothing is broadcast and nothing raises.\<close>

lemma eval_contractions_shaped:
  assumes "length p = 3" "shaped L 3 angmom_comps" "length alphas = K"
    "shaped K M prim_coeffs" "shaped L K nrm"
  shows "eval_contractions p R_x R_y R_z angmom_comps alphas prim_coeffs nrm =
    Inr (concat (map (\<lambda>m. map (\<lambda>l. contraction angmom_comps alphas prim_coeffs nrm
      (shift p R_x R_y R_z) K m l) [0..<L]) [0..<M]))"
  using assms
  by (simp add: eval_contractions_def shaped_def broadcast_dim_def and_then_def)

lemma contraction_closed:
  assumes "shaped L 3 angmom_comps" "length alphas = K" "shaped L K nrm" "l < L"
  shows "contraction angmom_comps alphas prim_coeffs nrm (shift p R_x R_y R_z) K m l =
    (\<Sum>k<K. at2 prim_coeffs k m * at2 nrm l k *
       (\<Prod>d<3. (p ! d - [R_x, R_y, R_z] ! d) ^ at2 angmom_comps l d *
                exp (- (alphas ! k) * (p ! d - [R_x, R_y, R_z] ! d)\<^sup>2)))"
proof -
  have step: "at2 prim_coeffs k m * normed_part angmom_comps alphas nrm (shift p R_x R_y R_z) k l =
     at2 prim_coeffs k m * at2 nrm l k *
       (\<Prod>d<3. (p ! d - [R_x, R_y, R_z] ! d) ^ at2 angmom_comps l d *
                exp (- (alphas ! k) * (p ! d - [R_x, R_y, R_z] ! d)\<^sup>2))" if "k < K" for k
  proof -
    have "(\<Prod>d<3. factor angmom_comps alphas (shift p R_x R_y R_z) k d l) =
        (\<Prod>d<3. (p ! d - [R_x, R_y, R_z] ! d) ^ at2 angmom_comps l d *
                exp (- (alphas ! k) * (p ! d - [R_x, R_y, R_z] ! d)\<^sup>2))"
      using assms by (intro prod.cong refl)
        (simp add: factor_def monomial_def gauss_def shift_def shaped_def bidx_less)
    then show ?thesis
      using assms that
      by (simp add: normed_part_def zeroth_part_def prod_list_3 bidx_less shaped_def)
  qed
  show ?thesis
    unfolding contraction_def sum_list_upt
    by (intro sum.cong refl) (simp only: step lessThan_iff)
qed

text \<open>
  C1. For a point \<open>p\<close> of three coordinates, an L x 3 array of angular momentum
  components, K exponents, a K x M array of coefficients and an L x K array of
  normalization constants, \<^verbatim>\<open>eval_contractions\<close> returns a flat array whose entry
  \<open>m * L + l\<close> is the sum over the primitives \<open>k < K\<close> of
  \<open>prim_coeffs[k, m] * norm[l, k]\<close> times the product over the three dimensions of
  \<open>(p_d - R_d) ^ a_{l,d} * exp (- alpha_k * (p_d - R_d)^2)\<close>.
\<close>

theorem eval_contractions_closed_form:
  assumes "length p = 3" "shaped L 3 angmom_comps" "length alphas = K"
    "shaped K M prim_coeffs" "shaped L K nrm" "m < M" "l < L"
  shows "\<exists>ys. eval_contractions p R_x R_y R_z angmom_comps alphas prim_coeffs nrm = Inr ys \<and>
    ys ! (m * L + l) =
      (\<Sum>k<K. at2 prim_coeffs k m * at2 nrm l k *
         (\<Prod>d<3. (p ! d - [R_x, R_y, R_z] ! d) ^ at2 angmom_comps l d *
                  exp (- (alphas ! k) * (p ! d - [R_x, R_y, R_z] ! d)\<^sup>2)))"
  using assms
  by (simp add: eval_contractions_shaped [of p L angmom_comps alphas K M prim_coeffs nrm]
      grid_nth contraction_closed [of L angmom_comps alphas K nrm l])

theorem eval_contractions_closed_form_witness:
  "\<exists>ys. eval_contractions [1, 2, 3] 0 1 1
          \<lparr>nrows = 2, ncols = 3, buffer = [0, 0, 0, 1, 0, 2]\<rparr> [1, 2]
          \<lparr>nrows = 2, ncols = 2, buffer = [1, 2, 3, 4]\<rparr>
          \<lparr>nrows = 2, ncols = 2, buffer = [5, 6, 7, 8]\<rparr> = Inr ys \<and>
     ys ! (1 * 2 + 1) =
       (\<Sum>k<2. at2 \<lparr>nrows = 2, ncols = 2, buffer = [1, 2, 3, 4]\<rparr> k 1 *
               at2 \<lparr>nrows = 2, ncols = 2, buffer = [5, 6, 7, 8::real]\<rparr> 1 k *
          (\<Prod>d<3. ([1, 2, 3] ! d - [0, 1, 1] ! d) ^
                     at2 \<lparr>nrows = 2, ncols = 3, buffer = [0, 0, 0, 1, 0, 2::nat]\<rparr> 1 d *
                   exp (- ([1, 2] ! k) * ([1, 2, 3] ! d - [0, 1, 1] ! d)\<^sup>2)))"
  using eval_contractions_closed_form [of "[1, 2, 3]" 2
      "\<lparr>nrows = 2, ncols = 3, buffer = [0, 0, 0, 1, 0, 2]\<rparr>" "[1, 2]" 2 2
      "\<lparr>nrows = 2, ncols = 2, buffer = [1, 2, 3, 4]\<rparr>"
      "\<lparr>nrows = 2, ncols = 2, buffer = [5, 6, 7, 8]\<rparr>" 1 1 0 1 1]
  by (simp add: shaped_def)

section \<open>Layout, reordering and translation\<close>

lemma contraction_single:
  assumes "shaped L 3 angmom_comps" "length alphas = K" "shaped K M prim_coeffs"
    "shaped L K nrm" "l < L"
  shows "contraction (single_row angmom_comps l) alphas (column prim_coeffs m)
      (single_row nrm l) (shift p R_x R_y R_z) K 0 0 =
    contraction angmom_comps alphas prim_coeffs nrm (shift p R_x R_y R_z) K m l"
proof -
  have a: "shaped 1 3 (single_row angmom_comps l)" and n: "shaped 1 K (single_row nrm l)"
    using assms shaped_single_row [of angmom_comps l] shaped_single_row [of nrm l]
    by (simp_all add: shaped_def)
  have c: "at2 (column prim_coeffs m) k 0 = at2 prim_coeffs k m" if "k < K" for k
    using assms that by (simp add: at2_column shaped_def)
  have r: "at2 (single_row nrm l) 0 k = at2 nrm l k" if "k < K" for k
    using assms that by (simp add: at2_single_row shaped_def)
  have e: "at2 (single_row angmom_comps l) 0 d = at2 angmom_comps l d" if "d < 3" for d
    using assms that by (simp add: at2_single_row shaped_def)
  have "(\<Sum>k<K. at2 (column prim_coeffs m) k 0 * at2 (single_row nrm l) 0 k *
         (\<Prod>d<3. (p ! d - [R_x, R_y, R_z] ! d) ^ at2 (single_row angmom_comps l) 0 d *
                  exp (- (alphas ! k) * (p ! d - [R_x, R_y, R_z] ! d)\<^sup>2))) =
    (\<Sum>k<K. at2 prim_coeffs k m * at2 nrm l k *
         (\<Prod>d<3. (p ! d - [R_x, R_y, R_z] ! d) ^ at2 angmom_comps l d *
                  exp (- (alphas ! k) * (p ! d - [R_x, R_y, R_z] ! d)\<^sup>2)))"
  proof (rule sum.cong [OF refl])
    fix k assume "k \<in> {..<K}"
    then have k: "k < K" by simp
    have "(\<Prod>d<3. (p ! d - [R_x, R_y, R_z] ! d) ^ at2 (single_row angmom_comps l) 0 d *
                  exp (- (alphas ! k) * (p ! d - [R_x, R_y, R_z] ! d)\<^sup>2)) =
      (\<Prod>d<3. (p ! d - [R_x, R_y, R_z] ! d) ^ at2 angmom_comps l d *
                  exp (- (alphas ! k) * (p ! d - [R_x, R_y, R_z] ! d)\<^sup>2))"
      by (rule prod.cong [OF refl]) (simp add: e)
    then show "at2 (column prim_coeffs m) k 0 * at2 (single_row nrm l) 0 k *
         (\<Prod>d<3. (p ! d - [R_x, R_y, R_z] ! d) ^ at2 (single_row angmom_comps l) 0 d *
                  exp (- (alphas ! k) * (p ! d - [R_x, R_y, R_z] ! d)\<^sup>2)) =
      at2 prim_coeffs k m * at2 nrm l k *
         (\<Prod>d<3. (p ! d - [R_x, R_y, R_z] ! d) ^ at2 angmom_comps l d *
                  exp (- (alphas ! k) * (p ! d - [R_x, R_y, R_z] ! d)\<^sup>2))"
      by (simp only: c [OF k] r [OF k])
  qed
  then show ?thesis
    using contraction_closed [OF a assms(2) n, of 0]
      contraction_closed [OF assms(1) assms(2) assms(4) assms(5)]
    by simp
qed

text \<open>
  C3. On the documented shapes \<^verbatim>\<open>eval_contractions\<close> returns exactly \<open>M * L\<close> scalars,
  contraction-major and angular-momentum-minor: the entry at \<open>m * L + l\<close> is the single
  value the function returns for contraction \<open>m\<close> alone (column \<open>m\<close> of the coefficients)
  and angular momentum vector \<open>l\<close> alone (row \<open>l\<close> of \<^verbatim>\<open>angmom_comps\<close> and of \<^verbatim>\<open>norm\<close>).
\<close>

theorem eval_contractions_layout:
  assumes "length p = 3" "shaped L 3 angmom_comps" "length alphas = K"
    "shaped K M prim_coeffs" "shaped L K nrm"
  shows "\<exists>ys. eval_contractions p R_x R_y R_z angmom_comps alphas prim_coeffs nrm = Inr ys \<and>
    length ys = M * L \<and>
    (\<forall>m<M. \<forall>l<L.
       eval_contractions p R_x R_y R_z (single_row angmom_comps l) alphas
         (column prim_coeffs m) (single_row nrm l) = Inr [ys ! (m * L + l)])"
proof -
  have one: "eval_contractions p R_x R_y R_z (single_row angmom_comps l) alphas
         (column prim_coeffs m) (single_row nrm l) =
       Inr [contraction angmom_comps alphas prim_coeffs nrm (shift p R_x R_y R_z) K m l]"
    if "l < L" for m l
  proof -
    have a: "shaped 1 3 (single_row angmom_comps l)" and n: "shaped 1 K (single_row nrm l)"
      and c: "shaped K 1 (column prim_coeffs m)"
      using assms shaped_single_row [of angmom_comps l] shaped_single_row [of nrm l]
        shaped_column [of prim_coeffs m]
      by (simp_all add: shaped_def)
    show ?thesis
      using eval_contractions_shaped [OF assms(1) a assms(3) c n, of R_x R_y R_z]
        contraction_single [OF assms(2-5) that, of m p R_x R_y R_z]
      by simp
  qed
  show ?thesis
    unfolding eval_contractions_shaped [OF assms]
    by (simp add: grid_length grid_nth one)
qed

theorem eval_contractions_layout_witness:
  "\<exists>ys. eval_contractions [1, 2, 3] 0 1 1
          \<lparr>nrows = 2, ncols = 3, buffer = [0, 0, 0, 1, 0, 2]\<rparr> [1, 2]
          \<lparr>nrows = 2, ncols = 2, buffer = [1, 2, 3, 4]\<rparr>
          \<lparr>nrows = 2, ncols = 2, buffer = [5, 6, 7, 8]\<rparr> = Inr ys \<and>
     length ys = 2 * 2 \<and>
     eval_contractions [1, 2, 3] 0 1 1
       (single_row \<lparr>nrows = 2, ncols = 3, buffer = [0, 0, 0, 1, 0, 2]\<rparr> 1) [1, 2]
       (column \<lparr>nrows = 2, ncols = 2, buffer = [1, 2, 3, 4]\<rparr> 0)
       (single_row \<lparr>nrows = 2, ncols = 2, buffer = [5, 6, 7, 8]\<rparr> 1) = Inr [ys ! (0 * 2 + 1)]"
  using eval_contractions_layout [of "[1, 2, 3]" 2
      "\<lparr>nrows = 2, ncols = 3, buffer = [0, 0, 0, 1, 0, 2]\<rparr>" "[1, 2]" 2 2
      "\<lparr>nrows = 2, ncols = 2, buffer = [1, 2, 3, 4]\<rparr>"
      "\<lparr>nrows = 2, ncols = 2, buffer = [5, 6, 7, 8]\<rparr>" 0 1 1]
  by (auto simp: shaped_def)

text \<open>
  Reordering the primitives by a permutation \<open>\<sigma>\<close> of \<open>{0, ..., K - 1}\<close>, applied at once to
  the entries of \<^verbatim>\<open>alphas\<close>, the rows of \<^verbatim>\<open>prim_coeffs\<close> and the columns of \<^verbatim>\<open>norm\<close>, reorders
  the terms of the sum over the primitives. A sum of real numbers does not depend on the
  order of its terms, so for real numbers the result is the same. The float64 sum does depend
  on it; see the section on float64 arithmetic.
\<close>

lemma eval_contractions_reordered_real:
  assumes "length p = 3" "shaped L 3 angmom_comps" "length alphas = K"
    "shaped K M prim_coeffs" "shaped L K nrm" "bij_betw \<sigma> {..<K} {..<K}"
  shows "eval_contractions p R_x R_y R_z angmom_comps (perm_vec \<sigma> alphas)
      (perm_rows \<sigma> prim_coeffs) (perm_cols \<sigma> nrm) =
    eval_contractions p R_x R_y R_z angmom_comps alphas prim_coeffs nrm"
proof -
  have al: "length (perm_vec \<sigma> alphas) = K"
    using assms by (simp add: perm_vec_def)
  have c: "shaped K M (perm_rows \<sigma> prim_coeffs)"
    using assms shaped_perm_rows [of prim_coeffs \<sigma>] by (simp add: shaped_def)
  have n: "shaped L K (perm_cols \<sigma> nrm)"
    using assms shaped_perm_cols [of nrm \<sigma>] by (simp add: shaped_def)
  define g where "g m l k = at2 prim_coeffs k m * at2 nrm l k *
         (\<Prod>d<3. (p ! d - [R_x, R_y, R_z] ! d) ^ at2 angmom_comps l d *
                  exp (- (alphas ! k) * (p ! d - [R_x, R_y, R_z] ! d)\<^sup>2))" for m l k
  have "contraction angmom_comps (perm_vec \<sigma> alphas) (perm_rows \<sigma> prim_coeffs)
          (perm_cols \<sigma> nrm) (shift p R_x R_y R_z) K m l =
        contraction angmom_comps alphas prim_coeffs nrm (shift p R_x R_y R_z) K m l"
    if "m < M" "l < L" for m l
  proof -
    have "contraction angmom_comps (perm_vec \<sigma> alphas) (perm_rows \<sigma> prim_coeffs)
          (perm_cols \<sigma> nrm) (shift p R_x R_y R_z) K m l = (\<Sum>k<K. g m l (\<sigma> k))"
      unfolding contraction_closed [OF assms(2) al n that(2)] g_def
      using assms that
      by (intro sum.cong refl)
        (simp add: at2_perm_rows at2_perm_cols perm_vec_def shaped_def)
    also have "\<dots> = (\<Sum>k<K. g m l k)"
      by (rule sum.reindex_bij_betw [OF assms(6)])
    also have "\<dots> = contraction angmom_comps alphas prim_coeffs nrm (shift p R_x R_y R_z) K m l"
      unfolding contraction_closed [OF assms(2) assms(3) assms(5) that(2)] g_def ..
    finally show ?thesis .
  qed
  then show ?thesis
    unfolding eval_contractions_shaped [OF assms(1-5)]
      eval_contractions_shaped [OF assms(1) assms(2) al c n]
    by (intro arg_cong [where f = Inr] grid_cong)
qed

text \<open>
  C10. \<^verbatim>\<open>eval_contractions\<close> is translation invariant: moving the point and the center
  by the same vector \<open>t\<close> does not change the result, which depends on them through the
  differences \<open>p_d - R_d\<close> only. (For real numbers; sums of floats round.)
\<close>

theorem eval_contractions_translation:
  assumes "length p = 3"
  shows "eval_contractions (translate p [t_x, t_y, t_z]) (R_x + t_x) (R_y + t_y) (R_z + t_z)
      angmom_comps alphas prim_coeffs nrm =
    eval_contractions p R_x R_y R_z angmom_comps alphas prim_coeffs nrm"
proof -
  obtain x y z where p: "p = [x, y, z]"
    using assms by (auto simp: length_Suc_conv numeral_3_eq_3)
  have "shift (translate p [t_x, t_y, t_z]) (R_x + t_x) (R_y + t_y) (R_z + t_z) d =
      shift p R_x R_y R_z d" if "d < 3" for d
  proof -
    from that have "d = 0 \<or> d = 1 \<or> d = 2" by auto
    then show ?thesis by (auto simp: p shift_def translate_def)
  qed
  then have "zeroth_part angmom_comps alphas
        (shift (translate p [t_x, t_y, t_z]) (R_x + t_x) (R_y + t_y) (R_z + t_z)) =
      zeroth_part angmom_comps alphas (shift p R_x R_y R_z)"
    by (intro ext) (simp add: zeroth_part_def upt_3 factor_def monomial_def gauss_def)
  then have c: "contraction angmom_comps alphas prim_coeffs nrm
        (shift (translate p [t_x, t_y, t_z]) (R_x + t_x) (R_y + t_y) (R_z + t_z)) =
      contraction angmom_comps alphas prim_coeffs nrm (shift p R_x R_y R_z)"
    by (intro ext) (simp add: contraction_def normed_part_def)
  have "length (translate p [t_x, t_y, t_z]) = length p"
    by (simp add: p translate_def)
  then show ?thesis
    unfolding eval_contractions_def c by simp
qed

theorem eval_contractions_translation_witness:
  "eval_contractions (translate [1, 2, 3] [1, 5, 7]) (0 + 1) (1 + 5) (1 + 7)
      \<lparr>nrows = 2, ncols = 3, buffer = [0, 0, 0, 1, 0, 2]\<rparr> [1, 2]
      \<lparr>nrows = 2, ncols = 2, buffer = [1, 2, 3, 4]\<rparr>
      \<lparr>nrows = 2, ncols = 2, buffer = [5, 6, 7, 8]\<rparr> =
    eval_contractions [1, 2, 3] 0 1 1
      \<lparr>nrows = 2, ncols = 3, buffer = [0, 0, 0, 1, 0, 2]\<rparr> [1, 2]
      \<lparr>nrows = 2, ncols = 2, buffer = [1, 2, 3, 4]\<rparr>
      \<lparr>nrows = 2, ncols = 2, buffer = [5, 6, 7, 8]\<rparr>"
  by (rule eval_contractions_translation) simp

text \<open>
  C5. For the angular momentum vector (0, 0, 0) the monomial factor is 1 in each of the
  three dimensions whatever the shifted coordinates \<open>\<Delta>\<close> are, also where they are 0; and
  with one primitive of exponent 1, coefficient 1, normalization 1, center (0, 0, 0) and
  point (0, 0, 0), \<^verbatim>\<open>eval_contractions\<close> returns the single value 1.
\<close>

theorem zero_angmom:
  "monomial \<lparr>nrows = 1, ncols = 3, buffer = [0, 0, 0]\<rparr> \<Delta> 0 0 = 1 \<and>
   monomial \<lparr>nrows = 1, ncols = 3, buffer = [0, 0, 0]\<rparr> \<Delta> 1 0 = 1 \<and>
   monomial \<lparr>nrows = 1, ncols = 3, buffer = [0, 0, 0]\<rparr> \<Delta> 2 0 = 1 \<and>
   monomial \<lparr>nrows = 1, ncols = 3, buffer = [0, 0, 0]\<rparr> (\<lambda>d. 0) 0 0 = 1 \<and>
   eval_contractions [0, 0, 0] 0 0 0 \<lparr>nrows = 1, ncols = 3, buffer = [0, 0, 0]\<rparr> [1]
     \<lparr>nrows = 1, ncols = 1, buffer = [1]\<rparr> \<lparr>nrows = 1, ncols = 1, buffer = [1]\<rparr> = Inr [1]"
  by (simp add: monomial_def at2_def bidx_def eval_contractions_def broadcast_dim_def
      and_then_def contraction_def normed_part_def zeroth_part_def upt_3 factor_def gauss_def
      shift_def)

section \<open>The gradient: what the backward pass computes\<close>

text \<open>The definitions to unfold when the model is run on concrete arrays.\<close>

lemmas model_defs = eval_deriv_def apply_along_axis_def grad_eval_contractions_def
  eval_contractions_def and_then_def broadcast_dim_def bidx_def contraction_def normed_part_def
  zeroth_part_def factor_def monomial_def gauss_def shift_def at2_def row_def upt_3
  g_center_def g_coords_square_def g_square_def g_exponent_def g_coords_power_def g_gauss_def
  g_monomial_def g_factor_def g_zeroth_part_def fsum_def fneg_def fadd_def fmul_def fdiv_def
  vstack_def transposed_def

lemma term_deriv:
  "((\<lambda>r. (q - r) ^ a * exp (- \<alpha> * (q - r)\<^sup>2)) has_real_derivative
     (- (real a * (q - R) ^ (a - 1)) * exp (- \<alpha> * (q - R)\<^sup>2) +
      (q - R) ^ a * (exp (- \<alpha> * (q - R)\<^sup>2) * (2 * \<alpha> * (q - R))))) (at R)"
  by (rule derivative_eq_intros refl | simp add: algebra_simps)+

lemma sum_deriv:
  "((\<lambda>r. \<Sum>j<K. w j * ((q - r) ^ a * exp (- \<alpha> j * (q - r)\<^sup>2))) has_real_derivative
     (\<Sum>j<K. w j * (- (real a * (q - R) ^ (a - 1)) * exp (- \<alpha> j * (q - R)\<^sup>2) +
      (q - R) ^ a * (exp (- \<alpha> j * (q - R)\<^sup>2) * (2 * \<alpha> j * (q - R)))))) (at R)"
  by (intro DERIV_sum DERIV_cmult term_deriv)

lemma fsum_Some: "fsum (map (\<lambda>j. Some (f j)) xs) = Some (sum_list (map f xs))"
  by (induction xs) (simp_all add: fsum_def fadd_def)

lemma sum_list_filter_bidx:
  assumes "j < K"
  shows "sum_list (map f (filter (\<lambda>k. bidx K k = j) [0..<K])) = (f j :: real)"
proof -
  have "sum_list (map f (filter (\<lambda>k. bidx K k = j) [0..<K])) =
      (\<Sum>k<K. if bidx K k = j then f k else 0)"
    by (simp add: sum_list_map_filter' sum_list_upt)
  also have "\<dots> = (\<Sum>k<K. if k = j then f k else 0)"
    by (intro sum.cong refl) (simp add: bidx_less)
  also have "\<dots> = f j"
    using assms by simp
  finally show ?thesis .
qed


lemma factor_shaped:
  assumes "shaped 1 3 angmom_comps" "d < 3"
  shows "factor angmom_comps alphas \<Delta> j d 0 =
    (\<Delta> d) ^ at2 angmom_comps 0 d * exp (- (alphas ! j) * (\<Delta> d)\<^sup>2)"
  using assms by (simp add: factor_def monomial_def gauss_def shaped_def bidx_less)

lemma zeroth_part_split:
  assumes "d < 3"
  shows "zeroth_part angmom_comps alphas \<Delta> j 0 =
    factor angmom_comps alphas \<Delta> j d 0 *
      (\<Prod>d'\<in>{..<3} - {d}. factor angmom_comps alphas \<Delta> j d' 0)"
  using assms by (simp add: zeroth_part_def prod_list_3 prod.remove [of "{..<3}" d])

lemma g_zeroth_part_shaped:
  assumes "length alphas = K" "shaped K 1 prim_coeffs" "shaped 1 K nrm" "j < K"
  shows "g_zeroth_part alphas prim_coeffs nrm j = at2 prim_coeffs j 0 * at2 nrm 0 j"
  using assms sum_list_filter_bidx [OF assms(4),
      of "\<lambda>k. at2 prim_coeffs k 0 * 1 * at2 nrm 0 (bidx K k)"]
  by (simp add: g_zeroth_part_def shaped_def bidx_less)

lemma power_vjp_exponent: "real a * x ^ (if a \<noteq> 0 then a - 1 else 1) = real a * x ^ (a - 1)"
  by simp

lemma g_center_shaped:
  assumes "shaped 1 3 angmom_comps" "length alphas = K" "shaped K 1 prim_coeffs"
    "shaped 1 K nrm" "d < 3"
    and nz: "at2 angmom_comps 0 d = 0 \<or> \<Delta> d \<noteq> 0"
  shows "g_center angmom_comps alphas prim_coeffs nrm \<Delta> d =
    Some (\<Sum>j<K. at2 prim_coeffs j 0 * at2 nrm 0 j *
             (\<Prod>d'\<in>{..<3} - {d}. factor angmom_comps alphas \<Delta> j d' 0) *
           (- (real (at2 angmom_comps 0 d) * (\<Delta> d) ^ (at2 angmom_comps 0 d - 1)) *
                exp (- (alphas ! j) * (\<Delta> d)\<^sup>2) +
            (\<Delta> d) ^ at2 angmom_comps 0 d *
              (exp (- (alphas ! j) * (\<Delta> d)\<^sup>2) * (2 * (alphas ! j) * \<Delta> d))))"
proof -
  define a where "a = at2 angmom_comps 0 d"
  define G where "G j = exp (- (alphas ! j) * (\<Delta> d)\<^sup>2)" for j
  define w where "w j = at2 prim_coeffs j 0 * at2 nrm 0 j *
      (\<Prod>d'\<in>{..<3} - {d}. factor angmom_comps alphas \<Delta> j d' 0)" for j
  have X: "factor angmom_comps alphas \<Delta> j d 0 = (\<Delta> d) ^ a * G j" for j
    using factor_shaped [OF assms(1) assms(5)] by (simp add: a_def G_def)
  have Xnz: "factor angmom_comps alphas \<Delta> j d 0 \<noteq> 0" for j
    using nz by (auto simp: X a_def G_def)
  have gf: "g_factor angmom_comps alphas prim_coeffs nrm \<Delta> j d = Some (w j)" if "j < K" for j
    using Xnz [of j] g_zeroth_part_shaped [OF assms(2-4) that]
    by (simp add: g_factor_def fdiv_def zeroth_part_split [OF assms(5)] w_def)
  have mono: "monomial angmom_comps \<Delta> d 0 = (\<Delta> d) ^ a"
    using assms by (simp add: monomial_def a_def shaped_def bidx_less)
  have ga: "gauss alphas \<Delta> j d = G j" for j
    by (simp add: gauss_def G_def)
  have gm: "g_monomial angmom_comps alphas prim_coeffs nrm \<Delta> d = Some (\<Sum>j<K. w j * G j)"
  proof -
    have eq: "map (\<lambda>j. fmul (g_factor angmom_comps alphas prim_coeffs nrm \<Delta> j d)
              (gauss alphas \<Delta> j d)) [0..<K] = map (\<lambda>j. Some (w j * G j)) [0..<K]"
      by (rule map_cong [OF refl]) (simp add: gf ga fmul_def)
    show ?thesis
      unfolding g_monomial_def assms(2) eq fsum_Some sum_list_upt ..
  qed
  have gs: "g_square angmom_comps alphas prim_coeffs nrm \<Delta> d =
      Some (\<Sum>j<K. w j * (\<Delta> d) ^ a * G j * (- (alphas ! j)))"
  proof -
    have eq: "map (\<lambda>j. fmul (g_exponent angmom_comps alphas prim_coeffs nrm \<Delta> j d)
              (- (alphas ! j))) [0..<K] =
          map (\<lambda>j. Some (w j * (\<Delta> d) ^ a * G j * (- (alphas ! j)))) [0..<K]"
      by (rule map_cong [OF refl])
        (simp add: g_exponent_def g_gauss_def gf ga mono fmul_def)
    show ?thesis
      unfolding g_square_def assms(2) eq fsum_Some sum_list_upt ..
  qed
  have bx: "bidx (ncols angmom_comps) d = d"
    using assms by (simp add: shaped_def bidx_less)
  have "g_center angmom_comps alphas prim_coeffs nrm \<Delta> d =
      Some (- ((\<Sum>j<K. w j * G j) * real a * (\<Delta> d) ^ (a - 1) +
               (\<Sum>j<K. w j * (\<Delta> d) ^ a * G j * (- (alphas ! j))) * 2 * (\<Delta> d)))"
    using power_vjp_exponent [of a "\<Delta> d"]
    by (simp add: g_center_def g_coords_power_def g_coords_square_def gm gs bx
        fneg_def fadd_def fmul_def Let_def a_def [symmetric] mult.assoc)
  also have "- ((\<Sum>j<K. w j * G j) * real a * (\<Delta> d) ^ (a - 1) +
               (\<Sum>j<K. w j * (\<Delta> d) ^ a * G j * (- (alphas ! j))) * 2 * (\<Delta> d)) =
      (\<Sum>j<K. w j * (- (real a * (\<Delta> d) ^ (a - 1)) * G j +
                     (\<Delta> d) ^ a * (G j * (2 * (alphas ! j) * \<Delta> d))))"
  proof -
    have P: "(\<Sum>j<K. w j * G j) * real a * (\<Delta> d) ^ (a - 1) =
        (\<Sum>j<K. w j * G j * real a * (\<Delta> d) ^ (a - 1))"
      by (simp add: sum_distrib_right)
    have S: "(\<Sum>j<K. w j * (\<Delta> d) ^ a * G j * (- (alphas ! j))) * 2 * (\<Delta> d) =
        (\<Sum>j<K. w j * (\<Delta> d) ^ a * G j * (- (alphas ! j)) * 2 * (\<Delta> d))"
      by (simp add: sum_distrib_right)
    show ?thesis
      unfolding P S sum.distrib [symmetric] sum_negf [symmetric]
      by (intro sum.cong refl) (simp add: algebra_simps)
  qed
  finally show ?thesis
    by (simp add: w_def a_def G_def)
qed


lemma eval_contractions_single:
  assumes "length p = 3" "shaped 1 3 angmom_comps" "length alphas = K"
    "shaped K 1 prim_coeffs" "shaped 1 K nrm"
  shows "eval_contractions p R_x R_y R_z angmom_comps alphas prim_coeffs nrm =
    Inr [contraction angmom_comps alphas prim_coeffs nrm (shift p R_x R_y R_z) K 0 0]"
  using eval_contractions_shaped [OF assms] by simp

lemma contraction_split:
  assumes "shaped 1 3 angmom_comps" "length alphas = K" "shaped 1 K nrm" "d < 3"
  shows "contraction angmom_comps alphas prim_coeffs nrm \<Delta> K 0 0 =
    (\<Sum>j<K. at2 prim_coeffs j 0 * at2 nrm 0 j *
             (\<Prod>d'\<in>{..<3} - {d}. factor angmom_comps alphas \<Delta> j d' 0) *
           ((\<Delta> d) ^ at2 angmom_comps 0 d * exp (- (alphas ! j) * (\<Delta> d)\<^sup>2)))"
  unfolding contraction_def sum_list_upt
proof (rule sum.cong [OF refl])
  fix j assume "j \<in> {..<K}"
  then have "normed_part angmom_comps alphas nrm \<Delta> j 0 =
      at2 nrm 0 j * zeroth_part angmom_comps alphas \<Delta> j 0"
    using assms by (simp add: normed_part_def shaped_def bidx_less)
  then show "at2 prim_coeffs j 0 * normed_part angmom_comps alphas nrm \<Delta> j 0 =
      at2 prim_coeffs j 0 * at2 nrm 0 j *
        (\<Prod>d'\<in>{..<3} - {d}. factor angmom_comps alphas \<Delta> j d' 0) *
        ((\<Delta> d) ^ at2 angmom_comps 0 d * exp (- (alphas ! j) * (\<Delta> d)\<^sup>2))"
    by (simp add: zeroth_part_split [OF assms(4)] factor_shaped [OF assms(1) assms(4)])
qed

lemma nth_3: "d < 3 \<Longrightarrow> [c ! 0, c ! 1, c ! 2] ! d = c ! d"
  by (auto simp: numeral_3_eq_3 less_Suc_eq numeral_2_eq_2)

lemma shift_nth: "d < 3 \<Longrightarrow> shift p (c ! 0) (c ! 1) (c ! 2) d = p ! d - c ! d"
  unfolding shift_def by (simp only: nth_3)

lemma shift_update:
  assumes "length c = 3" "d < 3" "d' < 3"
  shows "shift p (c[d := r] ! 0) (c[d := r] ! 1) (c[d := r] ! 2) d' =
    (if d' = d then p ! d - r else shift p (c ! 0) (c ! 1) (c ! 2) d')"
  unfolding shift_nth [OF assms(3)] using assms by (auto simp: nth_list_update)

text \<open>
  For real numbers, the backward pass returns the partial derivative wherever the monomial
  factor of the differentiated dimension does not vanish. In float64 a factor of the product
  is 0 in more places than that: \<^verbatim>\<open>np.exp\<close> underflows to 0 once \<open>alpha * Delta^2\<close> exceeds
  about 745, and there the rule for \<^verbatim>\<open>np.prod\<close> divides 0 by 0 just as it does at the center.
\<close>

lemma grad_eval_contractions_deriv:
  assumes "length p = 3" "shaped 1 3 angmom_comps" "length alphas = K"
    "shaped K 1 prim_coeffs" "shaped 1 K nrm" "length c = 3" "d < 3"
    and nz: "at2 angmom_comps 0 d = 0 \<or> p ! d \<noteq> c ! d"
  shows "\<exists>D. grad_eval_contractions (Suc d) p (c ! 0) (c ! 1) (c ! 2)
        angmom_comps alphas prim_coeffs nrm = Inr (Some D) \<and>
      ((\<lambda>r. single_output (eval_contractions p (c[d := r] ! 0) (c[d := r] ! 1) (c[d := r] ! 2)
          angmom_comps alphas prim_coeffs nrm)) has_real_derivative D) (at (c ! d))"
proof -
  define \<Delta> where "\<Delta> = shift p (c ! 0) (c ! 1) (c ! 2)"
  define \<Delta>r where "\<Delta>r r = shift p (c[d := r] ! 0) (c[d := r] ! 1) (c[d := r] ! 2)" for r
  define a where "a = at2 angmom_comps 0 d"
  define w where "w j = at2 prim_coeffs j 0 * at2 nrm 0 j *
      (\<Prod>d'\<in>{..<3} - {d}. factor angmom_comps alphas \<Delta> j d' 0)" for j
  have \<Delta>d: "\<Delta> d = p ! d - c ! d"
    using assms by (simp only: \<Delta>_def shift_nth)
  have \<Delta>r_eq: "\<Delta>r r d' = (if d' = d then p ! d - r else \<Delta> d')" if "d' < 3" for r d'
    unfolding \<Delta>r_def \<Delta>_def by (rule shift_update [OF assms(6) assms(7) that])
  have rest: "(\<Prod>d'\<in>{..<3} - {d}. factor angmom_comps alphas (\<Delta>r r) j d' 0) =
      (\<Prod>d'\<in>{..<3} - {d}. factor angmom_comps alphas \<Delta> j d' 0)" for r j
    using assms(7)
    by (intro prod.cong refl) (simp add: factor_shaped [OF assms(2)] \<Delta>r_eq)
  have val: "single_output (eval_contractions p (c[d := r] ! 0) (c[d := r] ! 1) (c[d := r] ! 2)
          angmom_comps alphas prim_coeffs nrm) =
      (\<Sum>j<K. w j * ((p ! d - r) ^ a * exp (- (alphas ! j) * (p ! d - r)\<^sup>2)))" for r
  proof -
    have "\<Delta>r r d = p ! d - r"
      using assms(7) by (simp add: \<Delta>r_eq)
    then show ?thesis
      unfolding eval_contractions_single [OF assms(1-5)] \<Delta>r_def [symmetric]
        contraction_split [OF assms(2) assms(3) assms(5) assms(7)] rest
      by (simp add: single_output_def w_def a_def)
  qed
  have nz': "at2 angmom_comps 0 d = 0 \<or> \<Delta> d \<noteq> 0"
    using nz by (simp add: \<Delta>d)
  define D where "D = (\<Sum>j<K. w j * (- (real a * (\<Delta> d) ^ (a - 1)) *
                exp (- (alphas ! j) * (\<Delta> d)\<^sup>2) +
            (\<Delta> d) ^ a * (exp (- (alphas ! j) * (\<Delta> d)\<^sup>2) * (2 * (alphas ! j) * \<Delta> d))))"
  have gc: "g_center angmom_comps alphas prim_coeffs nrm \<Delta> d = Some D"
    unfolding D_def w_def a_def
    by (rule g_center_shaped [of angmom_comps alphas K prim_coeffs nrm d \<Delta>,
          OF assms(2-5) assms(7) nz'])
  have "grad_eval_contractions (Suc d) p (c ! 0) (c ! 1) (c ! 2)
        angmom_comps alphas prim_coeffs nrm = Inr (Some D)"
    unfolding grad_eval_contractions_def eval_contractions_single [OF assms(1-5)]
      \<Delta>_def [symmetric]
    by (simp add: and_then_def gc)
  moreover have "((\<lambda>r. single_output (eval_contractions p (c[d := r] ! 0) (c[d := r] ! 1)
          (c[d := r] ! 2) angmom_comps alphas prim_coeffs nrm)) has_real_derivative D)
      (at (c ! d))"
    unfolding val D_def \<Delta>d by (rule sum_deriv)
  ultimately show ?thesis
    by blast
qed







section \<open>eval\_deriv\<close>




text \<open>
  C9. The result of \<^verbatim>\<open>eval_deriv\<close> does not depend on its second argument \<^verbatim>\<open>orders\<close>:
  with the other arguments equal, any two values of it give the same result.
\<close>

theorem eval_deriv_orders_unused:
  "eval_deriv coords o1 center angmom_comps alphas prim_coeffs nrm =
   eval_deriv coords o2 center angmom_comps alphas prim_coeffs nrm"
  by (simp add: eval_deriv_def)


text \<open>
  C6. One primitive with exponent 1, coefficient 1, normalization 1, angular momentum
  vector (1, 0, 0), center (0, 0, 0) and point (1, 0, 0): \<^verbatim>\<open>eval_contractions\<close> returns the
  single value \<open>exp (- 1)\<close>; the entry of \<^verbatim>\<open>eval_deriv\<close> for the center's x scalar is
  \<open>exp (- 1)\<close>, which is \<open>(2 (x - c)^2 - 1) * exp (- (x - c)^2)\<close> at \<open>x - c = 1\<close> and is the
  derivative of the value with respect to that scalar.
\<close>

theorem scenario_p_orbital:
  "eval_contractions [1, 0, 0] 0 0 0 \<lparr>nrows = 1, ncols = 3, buffer = [1, 0, 0]\<rparr> [1]
      \<lparr>nrows = 1, ncols = 1, buffer = [1]\<rparr> \<lparr>nrows = 1, ncols = 1, buffer = [1]\<rparr> =
     Inr [exp (- 1)] \<and>
   eval_deriv \<lparr>nrows = 1, ncols = 3, buffer = [1, 0, 0]\<rparr> orders [0, 0, 0]
      \<lparr>nrows = 1, ncols = 3, buffer = [1, 0, 0]\<rparr> [1]
      \<lparr>nrows = 1, ncols = 1, buffer = [1]\<rparr> \<lparr>nrows = 1, ncols = 1, buffer = [1]\<rparr> =
     Inr \<lparr>nrows = 1, ncols = 3, buffer = [Some (exp (- 1)), Some 0, Some 0]\<rparr> \<and>
   at2 \<lparr>nrows = 1, ncols = 3, buffer = [Some (exp (- 1)), Some 0, Some (0::real)]\<rparr> 0 0 =
     Some ((2 * 1\<^sup>2 - 1) * exp (- (1\<^sup>2))) \<and>
   ((\<lambda>c. single_output (eval_contractions [1, 0, 0] c 0 0
        \<lparr>nrows = 1, ncols = 3, buffer = [1, 0, 0]\<rparr> [1]
        \<lparr>nrows = 1, ncols = 1, buffer = [1]\<rparr> \<lparr>nrows = 1, ncols = 1, buffer = [1]\<rparr>))
      has_real_derivative exp (- 1)) (at 0)"
proof -
  have f: "(\<lambda>c. single_output (eval_contractions [1, 0, 0] c 0 0
        \<lparr>nrows = 1, ncols = 3, buffer = [1, 0, 0]\<rparr> [1]
        \<lparr>nrows = 1, ncols = 1, buffer = [1]\<rparr> \<lparr>nrows = 1, ncols = 1, buffer = [1]\<rparr>)) =
      (\<lambda>c. (1 - c) * exp (- ((1 - c)\<^sup>2)))"
    by (simp add: model_defs single_output_def)
  have d: "((\<lambda>c::real. (1 - c) * exp (- ((1 - c)\<^sup>2))) has_real_derivative exp (- 1)) (at 0)"
    by (rule derivative_eq_intros refl | simp)+
  show ?thesis
    unfolding f using d by (simp add: model_defs)
qed

text \<open>
  C2 fails where a monomial factor vanishes. With angular momentum vector (1, 0, 0) and
  the point at the center, the value as a function of the center's x scalar \<open>c\<close> is
  \<open>- c * exp (- c^2)\<close>, whose derivative at 0 is \<open>- 1\<close>; \<^verbatim>\<open>eval_deriv\<close> returns a float
  that is not finite there (the rule for \<^verbatim>\<open>np.prod\<close> divides 0 by 0).
\<close>

theorem gradient_at_center:
  "eval_deriv \<lparr>nrows = 1, ncols = 3, buffer = [0, 0, 0]\<rparr> () [0, 0, 0]
      \<lparr>nrows = 1, ncols = 3, buffer = [1, 0, 0]\<rparr> [1]
      \<lparr>nrows = 1, ncols = 1, buffer = [1]\<rparr> \<lparr>nrows = 1, ncols = 1, buffer = [1]\<rparr> =
     Inr \<lparr>nrows = 1, ncols = 3, buffer = [None, Some 0, Some 0]\<rparr> \<and>
   ((\<lambda>c. single_output (eval_contractions [0, 0, 0] c 0 0
        \<lparr>nrows = 1, ncols = 3, buffer = [1, 0, 0]\<rparr> [1]
        \<lparr>nrows = 1, ncols = 1, buffer = [1]\<rparr> \<lparr>nrows = 1, ncols = 1, buffer = [1]\<rparr>))
      has_real_derivative - 1) (at 0)"
proof -
  have f: "(\<lambda>c. single_output (eval_contractions [0, 0, 0] c 0 0
        \<lparr>nrows = 1, ncols = 3, buffer = [1, 0, 0]\<rparr> [1]
        \<lparr>nrows = 1, ncols = 1, buffer = [1]\<rparr> \<lparr>nrows = 1, ncols = 1, buffer = [1]\<rparr>)) =
      (\<lambda>c. - c * exp (- (c\<^sup>2)))"
    by (simp add: model_defs single_output_def)
  have d: "((\<lambda>c::real. - c * exp (- (c\<^sup>2))) has_real_derivative - 1) (at 0)"
    by (rule derivative_eq_intros refl | simp)+
  show ?thesis
    unfolding f using d by (simp add: model_defs)
qed
section \<open>Memory: the inputs are read, never written\<close>

text \<open>
  Every statement of the two functions allocates or reads. The memory after a call is therefore
  the memory before it with new buffers appended, and the value at the returned address is the
  value that the functions on values compute from the values of the arguments.
\<close>

lemma length_grid2: "length (grid2 m n f) = m * n"
  by (simp add: grid2_def grid_length)

lemma grid2_nth: "i < m \<Longrightarrow> j < n \<Longrightarrow> grid2 m n f ! (i * n + j) = f i j"
  unfolding grid2_def by (rule grid_nth)

lemma grid2_cong:
  "(\<And>i j. i < m \<Longrightarrow> j < n \<Longrightarrow> f i j = g i j) \<Longrightarrow> grid2 m n f = grid2 m n g"
  unfolding grid2_def by (rule grid_cong)

lemma map_grid2: "map g (grid2 m n f) = grid2 m n (\<lambda>i j. g (f i j))"
  by (simp add: grid2_def map_concat comp_def)

lemma grid3_nth:
  assumes "i < m" "j < n" "l < p"
  shows "grid3 m n p f ! ((i * n + j) * p + l) = f i j l"
proof -
  have "i * n + j < Suc i * n"
    using assms(2) by simp
  also have "\<dots> \<le> m * n"
    using assms(1) by (intro mult_le_mono1) simp
  finally have "i * n + j < m * n" .
  then show ?thesis
    using assms by (simp add: grid3_def grid2_nth)
qed

lemma floats_old: "a < length h \<Longrightarrow> floats (h @ ext) a = floats h a"
  by (simp add: floats_def nth_append)

lemma ints_old: "a < length h \<Longrightarrow> ints (h @ ext) a = ints h a"
  by (simp add: ints_def nth_append)

lemma floats_new: "floats (h @ Floats xs # ext) (length h) = xs"
  by (simp add: floats_def)

lemma get1_old: "base1 v < length h \<Longrightarrow> get1 (h @ ext) v i = get1 h v i"
  by (simp add: get1_def floats_old)

lemma load1_nth: "i < size1 v \<Longrightarrow> load1 h v ! i = get1 h v i"
  by (simp add: load1_def)

lemma at2_load2: "at2 (load2 h v) i j = floats h (base2 v) ! (i * cols2 v + j)"
  by (simp add: at2_def load2_def)

lemma at2_load2i: "at2 (load2i h v) i j = ints h (base2 v) ! (i * cols2 v + j)"
  by (simp add: at2_def load2i_def)

lemma dims_load [simp]:
  "nrows (load2 h v) = rows2 v" "ncols (load2 h v) = cols2 v"
  "nrows (load2i h v) = rows2 v" "ncols (load2i h v) = cols2 v"
  "length (load1 h w) = size1 w"
  by (simp_all add: load2_def load2i_def load1_def)

lemma subtract_center_eq:
  assumes "size1 coords = 3" "base1 coords < length h"
  shows "subtract_center coords R_x R_y R_z h =
    (Suc (length h),
     h @ [Floats [R_x, R_y, R_z], Floats (map (shift (load1 h coords) R_x R_y R_z) [0..<3])])"
  using assms
  by (simp add: subtract_center_def alloc_def get1_old floats_new shift_def load1_nth)

lemma floats_0: "floats (h @ Floats xs # bs) (length h) = xs"
  by (simp add: floats_def)

lemma floats_1: "floats (h @ b0 # Floats xs # bs) (Suc (length h)) = xs"
  by (simp add: floats_def nth_append)

lemma floats_2: "floats (h @ b0 # b1 # Floats xs # bs) (Suc (Suc (length h))) = xs"
  by (simp add: floats_def nth_append)

lemmas reads = floats_0 floats_1 floats_2 floats_old ints_old get1_old

lemma compute_gauss_eq:
  assumes "floats h s = map \<Delta> [0..<3]" "s < length h" "base1 alphas < length h"
  shows "\<exists>t1 t2 t3. compute_gauss alphas s h =
    (Suc (Suc (Suc (length h))),
     h @ [t1, t2, t3, Floats (grid2 (size1 alphas) 3 (gauss (load1 h alphas) \<Delta>))])"
proof -
  define neg where "neg = map (\<lambda>k. - get1 h alphas k) [0..<size1 alphas]"
  define sq where "sq = map (\<lambda>d. (map \<Delta> [0..<3] ! d)\<^sup>2) [0..<3]"
  define ex where "ex = grid2 (size1 alphas) 3 (\<lambda>k d. neg ! k * sq ! d)"
  have run: "compute_gauss alphas s h =
      (Suc (Suc (Suc (length h))), h @ [Floats neg, Floats sq, Floats ex, Floats (map exp ex)])"
    using assms
    by (simp add: compute_gauss_def alloc_def Let_def reads neg_def [symmetric]
        sq_def [symmetric] ex_def [symmetric])
  have "map exp ex = grid2 (size1 alphas) 3 (gauss (load1 h alphas) \<Delta>)"
    unfolding ex_def map_grid2
    by (rule grid2_cong) (simp add: neg_def sq_def gauss_def load1_nth)
  with run show ?thesis
    by simp
qed

lemma compute_zeroth_part_eq:
  assumes "floats h s = map \<Delta> [0..<3]"
    "floats h g = grid2 K 3 (gauss alphas \<Delta>)"
    "s < length h" "g < length h" "base2 angmom_comps < length h"
  shows "\<exists>t1 t2. compute_zeroth_part angmom_comps s g K h =
    (Suc (Suc (length h)),
     h @ [t1, t2, Floats (grid2 K (rows2 angmom_comps)
            (zeroth_part (load2i h angmom_comps) alphas \<Delta>))])"
proof -
  define L where "L = rows2 angmom_comps"
  define A where "A = cols2 angmom_comps"
  define pw where "pw = grid2 3 L (\<lambda>d l.
      (map \<Delta> [0..<3] ! d) ^ (ints h (base2 angmom_comps) ! (l * A + bidx A d)))"
  define pr where "pr = grid3 K 3 L (\<lambda>k d l.
      pw ! (d * L + l) * grid2 K 3 (gauss alphas \<Delta>) ! (k * 3 + d))"
  define z where "z = grid2 K L (\<lambda>k l.
      prod_list (map (\<lambda>d. pr ! ((k * 3 + d) * L + l)) [0..<3]))"
  have run: "compute_zeroth_part angmom_comps s g K h =
      (Suc (Suc (length h)), h @ [Floats pw, Floats pr, Floats z])"
    using assms
    by (simp add: compute_zeroth_part_def alloc_def Let_def reads L_def [symmetric]
        A_def [symmetric] pw_def [symmetric] pr_def [symmetric] z_def [symmetric])
  have "z = grid2 K L (zeroth_part (load2i h angmom_comps) alphas \<Delta>)"
    unfolding z_def
  proof (rule grid2_cong)
    fix k l assume kl: "k < K" "l < L"
    have "pr ! ((k * 3 + d) * L + l) = factor (load2i h angmom_comps) alphas \<Delta> k d l"
      if "d < 3" for d
      using kl that
      by (simp add: pr_def grid3_nth pw_def grid2_nth factor_def monomial_def at2_load2i
          A_def)
    then have "map (\<lambda>d. pr ! ((k * 3 + d) * L + l)) [0..<3] =
        map (\<lambda>d. factor (load2i h angmom_comps) alphas \<Delta> k d l) [0..<3]"
      by (intro map_cong refl) simp
    then show "prod_list (map (\<lambda>d. pr ! ((k * 3 + d) * L + l)) [0..<3]) =
        zeroth_part (load2i h angmom_comps) alphas \<Delta> k l"
      by (simp only: zeroth_part_def)
  qed
  with run show ?thesis
    by (simp add: L_def)
qed


lemma contract_eq:
  assumes "floats h z = grid2 K L Z" "z < length h"
    "base2 prim_coeffs < length h" "base2 nrm < length h"
    and inK: "\<And>k. k < K' \<Longrightarrow> bidx K k < K" and inL: "\<And>l. l < L' \<Longrightarrow> bidx L l < L"
  shows "\<exists>t1 t2. contract prim_coeffs nrm z K L K' L' h =
    (Suc (Suc (length h)),
     h @ [t1, t2, Floats (grid2 (cols2 prim_coeffs) L' (\<lambda>m l.
        sum_list (map (\<lambda>k. at2 (load2 h prim_coeffs) k m *
          (at2 (load2 h nrm) (bidx (rows2 nrm) l) (bidx (cols2 nrm) k) *
           Z (bidx K k) (bidx L l))) [0..<K'])))])"
proof -
  define M where "M = cols2 prim_coeffs"
  define nm where "nm = grid2 K' L' (\<lambda>k l.
      floats h (base2 nrm) ! (bidx (rows2 nrm) l * cols2 nrm + bidx (cols2 nrm) k) *
      grid2 K L Z ! (bidx K k * L + bidx L l))"
  define td where "td = grid2 M L' (\<lambda>m l.
      sum_list (map (\<lambda>k. floats h (base2 prim_coeffs) ! (k * M + m) * nm ! (k * L' + l))
        [0..<K']))"
  have run: "contract prim_coeffs nrm z K L K' L' h =
      (Suc (Suc (length h)), h @ [Floats nm, Floats td, Floats td])"
    using assms(1-4)
    by (simp add: contract_def alloc_def Let_def reads M_def [symmetric] nm_def [symmetric]
        td_def [symmetric])
  have "td = grid2 M L' (\<lambda>m l.
        sum_list (map (\<lambda>k. at2 (load2 h prim_coeffs) k m *
          (at2 (load2 h nrm) (bidx (rows2 nrm) l) (bidx (cols2 nrm) k) *
           Z (bidx K k) (bidx L l))) [0..<K']))"
    unfolding td_def
  proof (rule grid2_cong)
    fix m l assume ml: "m < M" "l < L'"
    have "floats h (base2 prim_coeffs) ! (k * M + m) * nm ! (k * L' + l) =
        at2 (load2 h prim_coeffs) k m *
          (at2 (load2 h nrm) (bidx (rows2 nrm) l) (bidx (cols2 nrm) k) *
           Z (bidx K k) (bidx L l))" if "k < K'" for k
      using ml that inK [OF that] inL [OF ml(2)]
      by (simp add: nm_def grid2_nth at2_load2 M_def)
    then show "sum_list (map (\<lambda>k. floats h (base2 prim_coeffs) ! (k * M + m) *
          nm ! (k * L' + l)) [0..<K']) =
        sum_list (map (\<lambda>k. at2 (load2 h prim_coeffs) k m *
          (at2 (load2 h nrm) (bidx (rows2 nrm) l) (bidx (cols2 nrm) k) *
           Z (bidx K k) (bidx L l))) [0..<K'])"
      by (intro arg_cong [where f = sum_list] map_cong refl) simp
  qed
  with run show ?thesis
    by (simp add: M_def)
qed

lemma broadcast_dim_bidx:
  assumes "broadcast_dim m n = Inr r" "i < r"
  shows "bidx m i < m" "bidx n i < n"
  using assms by (auto simp: broadcast_dim_def bidx_def split: if_splits)

lemma floats_3: "floats (h @ b0 # b1 # b2 # Floats xs # bs) (Suc (Suc (Suc (length h)))) = xs"
  by (simp add: floats_def nth_append)

lemma load1_old: "base1 v < length h \<Longrightarrow> load1 (h @ ext) v = load1 h v"
  by (simp add: load1_def get1_old cong: map_cong)

lemma load2_old: "base2 v < length h \<Longrightarrow> load2 (h @ ext) v = load2 h v"
  by (simp add: load2_def floats_old)

lemma load2i_old: "base2 v < length h \<Longrightarrow> load2i (h @ ext) v = load2i h v"
  by (simp add: load2i_def ints_old)

lemma eval_contractions_mem_refines:
  assumes "base1 coords < length h" "base2 angmom_comps < length h" "base1 alphas < length h"
    "base2 prim_coeffs < length h" "base2 nrm < length h"
  shows "\<exists>ext. snd (eval_contractions_mem coords R_x R_y R_z angmom_comps alphas prim_coeffs nrm h)
        = h @ ext \<and>
    (case fst (eval_contractions_mem coords R_x R_y R_z angmom_comps alphas prim_coeffs nrm h) of
       Inl e \<Rightarrow>
         eval_contractions (load1 h coords) R_x R_y R_z (load2i h angmom_comps) (load1 h alphas)
           (load2 h prim_coeffs) (load2 h nrm) = Inl e
     | Inr a \<Rightarrow>
         a < length (h @ ext) \<and>
         eval_contractions (load1 h coords) R_x R_y R_z (load2i h angmom_comps) (load1 h alphas)
           (load2 h prim_coeffs) (load2 h nrm) = Inr (floats (h @ ext) a))"
proof (cases "size1 coords = 3")
  case False
  then show ?thesis
    by (simp add: eval_contractions_mem_def eval_contractions_def)
next
  case True
  define \<Delta> where "\<Delta> = shift (load1 h coords) R_x R_y R_z"
  define K where "K = size1 alphas"
  define L where "L = rows2 angmom_comps"
  define e1 where "e1 = [Floats [R_x, R_y, R_z], Floats (map \<Delta> [0..<3])]"
  have st1: "subtract_center coords R_x R_y R_z h = (Suc (length h), h @ e1)"
    unfolding e1_def \<Delta>_def by (rule subtract_center_eq [OF True assms(1)])
  have f1: "floats (h @ e1) (Suc (length h)) = map \<Delta> [0..<3]"
    by (simp add: e1_def floats_1)
  obtain t1 t2 t3 where st2: "compute_gauss alphas (Suc (length h)) (h @ e1) =
      (Suc (Suc (Suc (length (h @ e1)))),
       (h @ e1) @ [t1, t2, t3, Floats (grid2 K 3 (gauss (load1 h alphas) \<Delta>))])"
    using compute_gauss_eq [OF f1, of alphas] assms(3)
    by (auto simp: e1_def load1_old K_def)
  define e2 where "e2 = e1 @ [t1, t2, t3, Floats (grid2 K 3 (gauss (load1 h alphas) \<Delta>))]"
  define g where "g = Suc (Suc (Suc (length (h @ e1))))"
  have st2': "compute_gauss alphas (Suc (length h)) (h @ e1) = (g, h @ e2)"
    using st2 by (simp add: e2_def g_def)
  have f2: "floats (h @ e2) (Suc (length h)) = map \<Delta> [0..<3]"
    "floats (h @ e2) g = grid2 K 3 (gauss (load1 h alphas) \<Delta>)"
    using floats_3 [of "h @ e1" t1 t2 t3 "grid2 K 3 (gauss (load1 h alphas) \<Delta>)" "[]"]
    by (simp_all add: e2_def e1_def g_def floats_1)
  have lens: "Suc (length h) < length (h @ e2)" "g < length (h @ e2)"
    "base2 angmom_comps < length (h @ e2)"
    using assms(2) by (simp_all add: e2_def e1_def g_def)
  obtain u1 u2 where st3: "compute_zeroth_part angmom_comps (Suc (length h)) g K (h @ e2) =
      (Suc (Suc (length (h @ e2))),
       (h @ e2) @ [u1, u2,
         Floats (grid2 K L (zeroth_part (load2i h angmom_comps) (load1 h alphas) \<Delta>))])"
    using compute_zeroth_part_eq [OF f2(1) f2(2) lens] assms(2)
    by (auto simp: load2i_old L_def)
  define Z where "Z = zeroth_part (load2i h angmom_comps) (load1 h alphas) \<Delta>"
  define e3 where "e3 = e2 @ [u1, u2, Floats (grid2 K L Z)]"
  define z where "z = Suc (Suc (length (h @ e2)))"
  have st3': "compute_zeroth_part angmom_comps (Suc (length h)) g K (h @ e2) = (z, h @ e3)"
    using st3 by (simp add: e3_def z_def Z_def)
  have f3: "floats (h @ e3) z = grid2 K L Z"
    using floats_2 [of "h @ e2" u1 u2 "grid2 K L Z" "[]"] by (simp add: e3_def z_def)
  have lens3: "z < length (h @ e3)" "base2 prim_coeffs < length (h @ e3)"
    "base2 nrm < length (h @ e3)"
    using assms(4,5) by (simp_all add: e3_def z_def)
  have pure: "eval_contractions (load1 h coords) R_x R_y R_z (load2i h angmom_comps)
      (load1 h alphas) (load2 h prim_coeffs) (load2 h nrm) =
      and_then (broadcast_dim 3 (cols2 angmom_comps)) (\<lambda>_.
      and_then (broadcast_dim (cols2 nrm) K) (\<lambda>K'.
      and_then (broadcast_dim (rows2 nrm) L) (\<lambda>L'.
        if rows2 prim_coeffs \<noteq> K' then Inl ValueError
        else Inr (grid2 (cols2 prim_coeffs) L'
          (contraction (load2i h angmom_comps) (load1 h alphas) (load2 h prim_coeffs)
             (load2 h nrm) \<Delta> K')))))"
    using True
    by (simp add: eval_contractions_def grid2_def \<Delta>_def K_def L_def and_then_def
        split: sum.splits)
  show ?thesis
  proof (cases "broadcast_dim 3 (cols2 angmom_comps)")
    case (Inl e)
    then show ?thesis
      unfolding pure using True
      by (simp add: eval_contractions_mem_def st1 st2' and_then_def)
  next
    case A: (Inr B)
    show ?thesis
    proof (cases "broadcast_dim (cols2 nrm) K")
      case (Inl e)
      then show ?thesis
        unfolding pure using True A
        by (simp add: eval_contractions_mem_def st1 st2' st3' and_then_def
            K_def [symmetric])
    next
      case BK: (Inr K')
      show ?thesis
      proof (cases "broadcast_dim (rows2 nrm) L")
        case (Inl e)
        then show ?thesis
          unfolding pure using True A BK
          by (simp add: eval_contractions_mem_def st1 st2' st3' and_then_def
              K_def [symmetric] L_def [symmetric])
      next
        case BL: (Inr L')
        show ?thesis
        proof (cases "rows2 prim_coeffs = K'")
          case False
          then show ?thesis
            unfolding pure using True A BK BL
            by (simp add: eval_contractions_mem_def st1 st2' st3' and_then_def alloc_def
                K_def [symmetric] L_def [symmetric])
        next
          case eqK: True
          have inK: "bidx K k < K" if "k < K'" for k
            using broadcast_dim_bidx(2) [OF BK that] .
          have inL: "bidx L l < L" if "l < L'" for l
            using broadcast_dim_bidx(2) [OF BL that] .
          obtain v1 v2 where st4: "contract prim_coeffs nrm z K L K' L' (h @ e3) =
              (Suc (Suc (length (h @ e3))),
               (h @ e3) @ [v1, v2, Floats (grid2 (cols2 prim_coeffs) L' (\<lambda>m l.
                  sum_list (map (\<lambda>k. at2 (load2 (h @ e3) prim_coeffs) k m *
                    (at2 (load2 (h @ e3) nrm) (bidx (rows2 nrm) l) (bidx (cols2 nrm) k) *
                     Z (bidx K k) (bidx L l))) [0..<K'])))])"
            using contract_eq [OF f3 lens3 inK inL] by blast
          define res where "res = grid2 (cols2 prim_coeffs) L'
              (contraction (load2i h angmom_comps) (load1 h alphas) (load2 h prim_coeffs)
                 (load2 h nrm) \<Delta> K')"
          have content: "grid2 (cols2 prim_coeffs) L' (\<lambda>m l.
                  sum_list (map (\<lambda>k. at2 (load2 (h @ e3) prim_coeffs) k m *
                    (at2 (load2 (h @ e3) nrm) (bidx (rows2 nrm) l) (bidx (cols2 nrm) k) *
                     Z (bidx K k) (bidx L l))) [0..<K'])) = res"
            unfolding res_def using assms(4,5)
            by (intro grid2_cong)
              (simp add: contraction_def normed_part_def load2_old Z_def K_def L_def)
          define e4 where "e4 = e3 @ [v1, v2, Floats res]"
          have st4': "contract prim_coeffs nrm z K L K' L' (h @ e3) =
              (Suc (Suc (length (h @ e3))), h @ e4)"
            using st4 unfolding content by (simp add: e4_def)
          have f4: "floats (h @ e4) (Suc (Suc (length (h @ e3)))) = res"
            using floats_2 [of "h @ e3" v1 v2 res "[]"] by (simp add: e4_def)
          have l4: "Suc (Suc (length (h @ e3))) < length (h @ e4)"
            by (simp add: e4_def)
          have run: "eval_contractions_mem coords R_x R_y R_z angmom_comps alphas prim_coeffs
              nrm h = (Inr (Suc (Suc (length (h @ e3)))), h @ e4)"
            using True A BK BL eqK
            by (simp add: eval_contractions_mem_def st1 st2' st3' st4'
                K_def [symmetric] L_def [symmetric])
          have "eval_contractions (load1 h coords) R_x R_y R_z (load2i h angmom_comps)
              (load1 h alphas) (load2 h prim_coeffs) (load2 h nrm) = Inr res"
            unfolding pure res_def using A BK BL eqK by (simp add: and_then_def)
          then show ?thesis
            unfolding run using f4 l4 by auto
        qed
      qed
    qed
  qed
qed

lemma cotangents_old: "a < length h \<Longrightarrow> cotangents (h @ ext) a = cotangents h a"
  by (simp add: cotangents_def nth_append)

lemma cotangents_new: "cotangents (h @ [Cotangents gs]) (length h) = gs"
  by (simp add: cotangents_def)

lemma cotangents_backward:
  "cotangents (h @ backward_buffers a al c n \<Delta>)
      (length (h @ backward_buffers a al c n \<Delta>) - 1) = map (g_center a al c n \<Delta>) [0..<3]"
  by (simp add: backward_buffers_def Let_def cotangents_def nth_append)

lemma cotangents_backward_ext:
  "cotangents (h @ ext @ backward_buffers a al c n \<Delta>)
      (length (h @ ext @ backward_buffers a al c n \<Delta>) - Suc 0) =
    map (g_center a al c n \<Delta>) [0..<3]"
  using cotangents_backward [of "h @ ext" a al c n \<Delta>] by simp

lemma grad_mem_refines:
  assumes "base1 coords < length h" "base2 angmom_comps < length h" "base1 alphas < length h"
    "base2 prim_coeffs < length h" "base2 nrm < length h" "argnum - 1 < 3"
  shows "\<exists>ext. snd (grad_mem argnum coords R_x R_y R_z angmom_comps alphas prim_coeffs nrm h)
        = h @ ext \<and>
    fst (grad_mem argnum coords R_x R_y R_z angmom_comps alphas prim_coeffs nrm h) =
      grad_eval_contractions argnum (load1 h coords) R_x R_y R_z (load2i h angmom_comps)
        (load1 h alphas) (load2 h prim_coeffs) (load2 h nrm)"
proof -
  obtain r h1 where run: "eval_contractions_mem coords R_x R_y R_z angmom_comps alphas
      prim_coeffs nrm h = (r, h1)"
    by (cases "eval_contractions_mem coords R_x R_y R_z angmom_comps alphas prim_coeffs nrm h")
  obtain ext where ext: "h1 = h @ ext"
    and res: "case r of
       Inl e \<Rightarrow>
         eval_contractions (load1 h coords) R_x R_y R_z (load2i h angmom_comps) (load1 h alphas)
           (load2 h prim_coeffs) (load2 h nrm) = Inl e
     | Inr a \<Rightarrow>
         a < length (h @ ext) \<and>
         eval_contractions (load1 h coords) R_x R_y R_z (load2i h angmom_comps) (load1 h alphas)
           (load2 h prim_coeffs) (load2 h nrm) = Inr (floats (h @ ext) a)"
    using eval_contractions_mem_refines [OF assms(1-5), of R_x R_y R_z] by (auto simp: run)
  show ?thesis
  proof (cases r)
    case (Inl e)
    then show ?thesis
      using res by (simp add: grad_mem_def run ext grad_eval_contractions_def and_then_def)
  next
    case (Inr a)
    with res have pure: "eval_contractions (load1 h coords) R_x R_y R_z
        (load2i h angmom_comps) (load1 h alphas) (load2 h prim_coeffs) (load2 h nrm) =
        Inr (floats (h @ ext) a)"
      by simp
    show ?thesis
    proof (cases "length (floats (h @ ext) a) = 1")
      case False
      then show ?thesis
        using Inr by (simp add: grad_mem_def run ext grad_eval_contractions_def pure
            and_then_def)
    next
      case True
      have "map (g_center (load2i h angmom_comps) (load1 h alphas) (load2 h prim_coeffs)
            (load2 h nrm) (shift (load1 h coords) R_x R_y R_z)) [0..<3] ! (argnum - 1) =
          g_center (load2i h angmom_comps) (load1 h alphas) (load2 h prim_coeffs)
            (load2 h nrm) (shift (load1 h coords) R_x R_y R_z) (argnum - 1)"
        using assms(6) by simp
      then show ?thesis
        using Inr True assms(1-5)
        by (simp add: grad_mem_def run ext grad_eval_contractions_def pure and_then_def
            Let_def load1_old load2_old load2i_old cotangents_backward_ext
            del: length_append)
    qed
  qed
qed

lemma rows_mem_refines:
  assumes "\<And>v h'. v \<in> set vs \<Longrightarrow> \<exists>e0. h' = h @ e0 \<Longrightarrow>
      \<exists>ext. snd (f v h') = h' @ ext \<and> fst (f v h') = pf v"
  shows "\<exists>ext. snd (rows_mem f vs h) = h @ ext \<and> fst (rows_mem f vs h) = collect (map pf vs)"
  using assms
proof (induction vs arbitrary: h)
  case Nil
  then show ?case by simp
next
  case (Cons v vs)
  obtain e1 where s1: "snd (f v h) = h @ e1" and f1: "fst (f v h) = pf v"
    using Cons.prems [of v h] by auto
  show ?case
  proof (cases "pf v")
    case (Inl e)
    then show ?thesis
      using s1 f1 by (cases "f v h") (auto simp: and_then_def)
  next
    case (Inr x)
    have "\<exists>ext. snd (f w h') = h' @ ext \<and> fst (f w h') = pf w"
      if "w \<in> set vs" "\<exists>e0. h' = (h @ e1) @ e0" for w h'
      using Cons.prems [of w h'] that by auto
    then obtain e2 where s2: "snd (rows_mem f vs (h @ e1)) = (h @ e1) @ e2"
      and f2: "fst (rows_mem f vs (h @ e1)) = collect (map pf vs)"
      using Cons.IH [of "h @ e1"] by blast
    show ?thesis
    proof (cases "collect (map pf vs)")
      case (Inl e)
      then show ?thesis
        using s1 f1 s2 f2 Inr
        by (cases "f v h"; cases "rows_mem f vs (h @ e1)") (auto simp: and_then_def)
    next
      case Inr2: (Inr xs)
      then show ?thesis
        using s1 f1 s2 f2 Inr
        by (cases "f v h"; cases "rows_mem f vs (h @ e1)") (auto simp: and_then_def)
    qed
  qed
qed

lemma load1_row_view: "load1 h (row_view arr i) = row (load2 h arr) i"
  by (simp add: load1_def row_def row_view_def get1_def at2_load2)

lemma collect_length: "collect rs = Inr xs \<Longrightarrow> length xs = length rs"
  by (induction rs arbitrary: xs) (auto simp: and_then_def split: sum.splits)

lemma apply_along_axis_length:
  "apply_along_axis pf A = Inr xs \<Longrightarrow> length xs = nrows A"
  by (auto simp: apply_along_axis_def split: if_splits dest: collect_length)

lemma apply_along_axis_mem_refines:
  assumes "\<And>i h'. i < rows2 arr \<Longrightarrow> \<exists>e0. h' = h @ e0 \<Longrightarrow>
      \<exists>ext. snd (f (row_view arr i) h') = h' @ ext \<and>
        fst (f (row_view arr i) h') = pf (load1 h (row_view arr i))"
  shows "\<exists>ext. snd (apply_along_axis_mem f arr h) = h @ ext \<and>
    (case fst (apply_along_axis_mem f arr h) of
       Inl e \<Rightarrow> apply_along_axis pf (load2 h arr) = Inl e
     | Inr a \<Rightarrow> a < length (h @ ext) \<and>
         apply_along_axis pf (load2 h arr) = Inr (cotangents (h @ ext) a))"
proof (cases "rows2 arr = 0")
  case True
  then show ?thesis
    by (simp add: apply_along_axis_mem_def apply_along_axis_def)
next
  case False
  define vs where "vs = map (row_view arr) [0..<rows2 arr]"
  have "\<exists>ext. snd (f v h') = h' @ ext \<and> fst (f v h') = pf (load1 h v)"
    if "v \<in> set vs" "\<exists>e0. h' = h @ e0" for v h'
  proof -
    from that(1) obtain i where "i < rows2 arr" "v = row_view arr i"
      by (auto simp: vs_def)
    then show ?thesis
      using assms [OF _ that(2), of i] by simp
  qed
  then obtain e1 where s: "snd (rows_mem f vs h) = h @ e1"
    and r: "fst (rows_mem f vs h) = collect (map (\<lambda>v. pf (load1 h v)) vs)"
    using rows_mem_refines [of vs h f "\<lambda>v. pf (load1 h v)"] by blast
  have pure: "apply_along_axis pf (load2 h arr) = collect (map (\<lambda>v. pf (load1 h v)) vs)"
    using False by (simp add: apply_along_axis_def vs_def load1_row_view comp_def)
  show ?thesis
  proof (cases "collect (map (\<lambda>v. pf (load1 h v)) vs)")
    case (Inl e)
    then show ?thesis
      using s r False unfolding pure
      by (cases "rows_mem f vs h") (auto simp: apply_along_axis_mem_def vs_def [symmetric])
  next
    case (Inr xs)
    then show ?thesis
      using s r False cotangents_new [of "h @ e1" xs] unfolding pure
      by (cases "rows_mem f vs h") (auto simp: apply_along_axis_mem_def vs_def [symmetric])
  qed
qed

lemma axis_grad_refines:
  assumes "base2 coords < length h" "base2 angmom_comps < length h" "base1 alphas < length h"
    "base2 prim_coeffs < length h" "base2 nrm < length h" "argnum - 1 < 3"
  shows "\<exists>ext. snd (apply_along_axis_mem (\<lambda>p. grad_mem argnum p R_x R_y R_z angmom_comps
        alphas prim_coeffs nrm) coords (h @ e)) = (h @ e) @ ext \<and>
    (case fst (apply_along_axis_mem (\<lambda>p. grad_mem argnum p R_x R_y R_z angmom_comps
        alphas prim_coeffs nrm) coords (h @ e)) of
       Inl er \<Rightarrow> apply_along_axis (\<lambda>p. grad_eval_contractions argnum p R_x R_y R_z
           (load2i h angmom_comps) (load1 h alphas) (load2 h prim_coeffs) (load2 h nrm))
           (load2 h coords) = Inl er
     | Inr a \<Rightarrow> a < length ((h @ e) @ ext) \<and>
         apply_along_axis (\<lambda>p. grad_eval_contractions argnum p R_x R_y R_z
           (load2i h angmom_comps) (load1 h alphas) (load2 h prim_coeffs) (load2 h nrm))
           (load2 h coords) = Inr (cotangents ((h @ e) @ ext) a))"
proof -
  have step: "\<exists>ext. snd (grad_mem argnum (row_view coords i) R_x R_y R_z angmom_comps alphas
          prim_coeffs nrm h') = h' @ ext \<and>
      fst (grad_mem argnum (row_view coords i) R_x R_y R_z angmom_comps alphas
          prim_coeffs nrm h') =
        grad_eval_contractions argnum (load1 (h @ e) (row_view coords i)) R_x R_y R_z
          (load2i h angmom_comps) (load1 h alphas) (load2 h prim_coeffs) (load2 h nrm)"
    if "\<exists>e0. h' = (h @ e) @ e0" for i h'
  proof -
    from that obtain e0 where h': "h' = h @ (e @ e0)"
      by auto
    have b: "base1 (row_view coords i) < length h"
      using assms(1) by (simp add: row_view_def)
    have in_h': "base1 (row_view coords i) < length h'" "base2 angmom_comps < length h'"
      "base1 alphas < length h'" "base2 prim_coeffs < length h'" "base2 nrm < length h'"
      using assms(1-5) by (simp_all add: h' row_view_def)
    show ?thesis
      using grad_mem_refines [OF in_h' assms(6), of R_x R_y R_z] assms(2-5) b
      by (simp add: h' load1_old load2_old load2i_old)
  qed
  have eq: "load2 (h @ e) coords = load2 h coords"
    using assms(1) by (rule load2_old)
  show ?thesis
    using apply_along_axis_mem_refines [of coords "h @ e"
        "\<lambda>p. grad_mem argnum p R_x R_y R_z angmom_comps alphas prim_coeffs nrm"
        "\<lambda>p. grad_eval_contractions argnum p R_x R_y R_z
           (load2i h angmom_comps) (load1 h alphas) (load2 h prim_coeffs) (load2 h nrm)",
        OF step]
    unfolding eq .
qed

lemma eval_deriv_mem_refines:
  assumes "base2 coords < length h" "base2 angmom_comps < length h" "base1 alphas < length h"
    "base2 prim_coeffs < length h" "base2 nrm < length h"
  shows "\<exists>ext. snd (eval_deriv_mem coords orders center angmom_comps alphas prim_coeffs nrm h)
        = h @ ext \<and>
    (case fst (eval_deriv_mem coords orders center angmom_comps alphas prim_coeffs nrm h) of
       Inl e \<Rightarrow>
         eval_deriv (load2 h coords) orders (load1 h center) (load2i h angmom_comps)
           (load1 h alphas) (load2 h prim_coeffs) (load2 h nrm) = Inl e
     | Inr a \<Rightarrow>
         eval_deriv (load2 h coords) orders (load1 h center) (load2i h angmom_comps)
           (load1 h alphas) (load2 h prim_coeffs) (load2 h nrm) =
         Inr (load_T (h @ ext) a (rows2 coords)))"
proof (cases "size1 center = 3")
  case False
  have "load1 h center \<noteq> [x, y, z]" for x y z
  proof
    assume "load1 h center = [x, y, z]"
    then have "length (load1 h center) = 3"
      by simp
    with False show False
      by simp
  qed
  then have "eval_deriv (load2 h coords) orders (load1 h center) (load2i h angmom_comps)
           (load1 h alphas) (load2 h prim_coeffs) (load2 h nrm) = Inl ValueError"
    by (auto simp: eval_deriv_def split: list.splits)
  then show ?thesis
    using False by (simp add: eval_deriv_mem_def)
next
  case True
  define R_x where "R_x = get1 h center 0"
  define R_y where "R_y = get1 h center 1"
  define R_z where "R_z = get1 h center 2"
  define pf where "pf argnum p = grad_eval_contractions argnum p R_x R_y R_z
      (load2i h angmom_comps) (load1 h alphas) (load2 h prim_coeffs) (load2 h nrm)"
    for argnum p
  define gm where "gm argnum p = grad_mem argnum p R_x R_y R_z angmom_comps alphas
      prim_coeffs nrm" for argnum p
  define A where "A = load2 h coords"
  have c: "load1 h center = [R_x, R_y, R_z]"
    using True by (simp add: load1_def upt_3 R_x_def R_y_def R_z_def)
  have pure: "eval_deriv (load2 h coords) orders (load1 h center) (load2i h angmom_comps)
           (load1 h alphas) (load2 h prim_coeffs) (load2 h nrm) =
      and_then (apply_along_axis (pf 1) A) (\<lambda>grad_x.
      and_then (apply_along_axis (pf 2) A) (\<lambda>grad_y.
      and_then (apply_along_axis (pf 3) A) (\<lambda>grad_z.
        Inr (transposed (vstack [grad_x, grad_y, grad_z])))))"
    unfolding c eval_deriv_def pf_def A_def by simp
  have mem: "eval_deriv_mem coords orders center angmom_comps alphas prim_coeffs nrm h =
      (case apply_along_axis_mem (gm 1) coords h of
         (Inl e, h1) \<Rightarrow> (Inl e, h1)
       | (Inr grad_x, h1) \<Rightarrow>
           (case apply_along_axis_mem (gm 2) coords h1 of
              (Inl e, h2) \<Rightarrow> (Inl e, h2)
            | (Inr grad_y, h2) \<Rightarrow>
                (case apply_along_axis_mem (gm 3) coords h2 of
                   (Inl e, h3) \<Rightarrow> (Inl e, h3)
                 | (Inr grad_z, h3) \<Rightarrow>
                     (Inr (length h3),
                      h3 @ [Cotangents (cotangents h3 grad_x @ cotangents h3 grad_y @
                                        cotangents h3 grad_z)]))))"
    unfolding eval_deriv_mem_def gm_def R_x_def R_y_def R_z_def Let_def
    using True by (simp only: not_True_eq_False simp_thms if_False)
  have axis: "\<exists>r ext. apply_along_axis_mem (gm argnum) coords (h @ e) = (r, (h @ e) @ ext) \<and>
    (case r of
       Inl er \<Rightarrow> apply_along_axis (pf argnum) A = Inl er
     | Inr a \<Rightarrow> a < length ((h @ e) @ ext) \<and>
         apply_along_axis (pf argnum) A = Inr (cotangents ((h @ e) @ ext) a))"
    if arg: "argnum - 1 < 3" for argnum e
  proof -
    obtain ext where
      1: "snd (apply_along_axis_mem (gm argnum) coords (h @ e)) = (h @ e) @ ext" and
      2: "case fst (apply_along_axis_mem (gm argnum) coords (h @ e)) of
         Inl er \<Rightarrow> apply_along_axis (pf argnum) A = Inl er
       | Inr a \<Rightarrow> a < length ((h @ e) @ ext) \<and>
           apply_along_axis (pf argnum) A = Inr (cotangents ((h @ e) @ ext) a)"
      using axis_grad_refines [OF assms arg, of R_x R_y R_z e]
      unfolding gm_def pf_def A_def by blast
    have "apply_along_axis_mem (gm argnum) coords (h @ e) =
        (fst (apply_along_axis_mem (gm argnum) coords (h @ e)), (h @ e) @ ext)"
      using 1 by (simp add: prod_eq_iff)
    with 2 show ?thesis
      by blast
  qed
  have args: "(1::nat) - 1 < 3" "(2::nat) - 1 < 3" "(3::nat) - 1 < 3"
    by simp_all
  obtain r1 e1 where run1: "apply_along_axis_mem (gm 1) coords h = (r1, h @ e1)"
    and p1: "case r1 of Inl er \<Rightarrow> apply_along_axis (pf 1) A = Inl er
      | Inr a \<Rightarrow> a < length (h @ e1) \<and>
          apply_along_axis (pf 1) A = Inr (cotangents (h @ e1) a)"
    using axis [OF args(1), of "[]", unfolded append_Nil2] by blast
  show ?thesis
  proof (cases r1)
    case (Inl er)
    then show ?thesis
      using p1 by (simp add: mem run1 pure and_then_def del: One_nat_def)
  next
    case r1: (Inr ax)
    obtain r2 e2 where run2: "apply_along_axis_mem (gm 2) coords (h @ e1) = (r2, (h @ e1) @ e2)"
      and p2: "case r2 of Inl er \<Rightarrow> apply_along_axis (pf 2) A = Inl er
        | Inr a \<Rightarrow> a < length ((h @ e1) @ e2) \<and>
            apply_along_axis (pf 2) A = Inr (cotangents ((h @ e1) @ e2) a)"
      using axis [OF args(2), of e1] by blast
    show ?thesis
    proof (cases r2)
      case (Inl er)
      then show ?thesis
        using p1 p2 r1 by (simp add: mem run1 run2 pure and_then_def del: One_nat_def)
    next
      case r2: (Inr ay)
      obtain r3 e3 where
        run3: "apply_along_axis_mem (gm 3) coords (h @ e1 @ e2) = (r3, (h @ e1 @ e2) @ e3)"
        and p3: "case r3 of Inl er \<Rightarrow> apply_along_axis (pf 3) A = Inl er
          | Inr a \<Rightarrow> a < length ((h @ e1 @ e2) @ e3) \<and>
              apply_along_axis (pf 3) A = Inr (cotangents ((h @ e1 @ e2) @ e3) a)"
        using axis [OF args(3), of "e1 @ e2"] by blast
      show ?thesis
      proof (cases r3)
        case (Inl er)
        then show ?thesis
          using p1 p2 p3 r1 r2
          by (simp add: mem run1 run2 run3 pure and_then_def del: One_nat_def)
      next
        case r3: (Inr az)
        define h3 where "h3 = h @ e1 @ e2 @ e3"
        define gx where "gx = cotangents (h @ e1) ax"
        define gy where "gy = cotangents (h @ e1 @ e2) ay"
        define gz where "gz = cotangents h3 az"
        have px: "apply_along_axis (pf 1) A = Inr gx" and ax: "ax < length (h @ e1)"
          using p1 r1 by (simp_all add: gx_def del: One_nat_def)
        have py: "apply_along_axis (pf 2) A = Inr gy" and ay: "ay < length (h @ e1 @ e2)"
          using p2 r2 by (simp_all add: gy_def)
        have pz: "apply_along_axis (pf 3) A = Inr gz"
          using p3 r3 by (simp add: gz_def h3_def)
        have reads: "cotangents h3 ax = gx" "cotangents h3 ay = gy"
          using cotangents_old [OF ax, of "e2 @ e3"] cotangents_old [OF ay, of e3]
          by (simp_all add: h3_def gx_def gy_def)
        have len: "length gx = rows2 coords"
          using apply_along_axis_length [OF px] by (simp add: A_def)
        have run: "eval_deriv_mem coords orders center angmom_comps alphas prim_coeffs nrm h =
            (Inr (length h3), h3 @ [Cotangents (gx @ gy @ gz)])"
          using run1 run2 run3 r1 r2 r3 reads
          by (simp add: mem gz_def h3_def del: One_nat_def)
        have "load_T (h3 @ [Cotangents (gx @ gy @ gz)]) (length h3) (rows2 coords) =
            transposed (vstack [gx, gy, gz])"
          by (simp add: load_T_def cotangents_new vstack_def len numeral_3_eq_3)
        moreover have "h3 @ [Cotangents (gx @ gy @ gz)] =
            h @ (e1 @ e2 @ e3 @ [Cotangents (gx @ gy @ gz)])"
          by (simp add: h3_def)
        ultimately show ?thesis
          unfolding run pure px py pz by (auto simp: and_then_def simp del: One_nat_def)
      qed
    qed
  qed
qed

text \<open>
  Claim C8. Neither \<^verbatim>\<open>eval_contractions\<close> nor \<^verbatim>\<open>eval_deriv\<close> mutates an input array, and the
  result depends only on the argument values. For arguments that live in the memory \<open>h\<close>: after
  the call every buffer of \<open>h\<close>, so every input array, holds what it held before (the memory
  after the call, cut to the length of \<open>h\<close>, is \<open>h\<close>); and what the call returns, error or array,
  is the function on values applied to the values that the arguments have in \<open>h\<close>. Nothing else
  of the memory enters the result, so two calls on equal argument values return the same,
  whatever was called in between.
\<close>

theorem inputs_not_mutated:
  assumes "base1 point < length h" "base2 coords < length h" "base2 angmom_comps < length h"
    "base1 alphas < length h" "base2 prim_coeffs < length h" "base2 nrm < length h"
  shows "take (length h)
      (snd (eval_contractions_mem point R_x R_y R_z angmom_comps alphas prim_coeffs nrm h)) = h \<and>
    returned_floats
      (eval_contractions_mem point R_x R_y R_z angmom_comps alphas prim_coeffs nrm h) =
      eval_contractions (load1 h point) R_x R_y R_z (load2i h angmom_comps) (load1 h alphas)
        (load2 h prim_coeffs) (load2 h nrm) \<and>
    take (length h)
      (snd (eval_deriv_mem coords orders center angmom_comps alphas prim_coeffs nrm h)) = h \<and>
    returned_T (rows2 coords)
      (eval_deriv_mem coords orders center angmom_comps alphas prim_coeffs nrm h) =
      eval_deriv (load2 h coords) orders (load1 h center) (load2i h angmom_comps)
        (load1 h alphas) (load2 h prim_coeffs) (load2 h nrm)"
proof -
  obtain e1 where 1:
    "snd (eval_contractions_mem point R_x R_y R_z angmom_comps alphas prim_coeffs nrm h) = h @ e1"
    "case fst (eval_contractions_mem point R_x R_y R_z angmom_comps alphas prim_coeffs nrm h) of
       Inl e \<Rightarrow>
         eval_contractions (load1 h point) R_x R_y R_z (load2i h angmom_comps) (load1 h alphas)
           (load2 h prim_coeffs) (load2 h nrm) = Inl e
     | Inr a \<Rightarrow>
         a < length (h @ e1) \<and>
         eval_contractions (load1 h point) R_x R_y R_z (load2i h angmom_comps) (load1 h alphas)
           (load2 h prim_coeffs) (load2 h nrm) = Inr (floats (h @ e1) a)"
    using eval_contractions_mem_refines [OF assms(1) assms(3-6), of R_x R_y R_z] by blast
  obtain e2 where 2:
    "snd (eval_deriv_mem coords orders center angmom_comps alphas prim_coeffs nrm h) = h @ e2"
    "case fst (eval_deriv_mem coords orders center angmom_comps alphas prim_coeffs nrm h) of
       Inl e \<Rightarrow>
         eval_deriv (load2 h coords) orders (load1 h center) (load2i h angmom_comps)
           (load1 h alphas) (load2 h prim_coeffs) (load2 h nrm) = Inl e
     | Inr a \<Rightarrow>
         eval_deriv (load2 h coords) orders (load1 h center) (load2i h angmom_comps)
           (load1 h alphas) (load2 h prim_coeffs) (load2 h nrm) =
         Inr (load_T (h @ e2) a (rows2 coords))"
    using eval_deriv_mem_refines [OF assms(2-6), of orders center] by blast
  have a: "take (length h)
      (snd (eval_contractions_mem point R_x R_y R_z angmom_comps alphas prim_coeffs nrm h)) = h"
    by (simp add: 1(1))
  have b: "returned_floats
      (eval_contractions_mem point R_x R_y R_z angmom_comps alphas prim_coeffs nrm h) =
      eval_contractions (load1 h point) R_x R_y R_z (load2i h angmom_comps) (load1 h alphas)
        (load2 h prim_coeffs) (load2 h nrm)"
    using 1(2) unfolding returned_floats_def 1(1) by (auto split: sum.splits)
  have c: "take (length h)
      (snd (eval_deriv_mem coords orders center angmom_comps alphas prim_coeffs nrm h)) = h"
    by (simp add: 2(1))
  have d: "returned_T (rows2 coords)
      (eval_deriv_mem coords orders center angmom_comps alphas prim_coeffs nrm h) =
      eval_deriv (load2 h coords) orders (load1 h center) (load2i h angmom_comps)
        (load1 h alphas) (load2 h prim_coeffs) (load2 h nrm)"
    using 2(2) unfolding returned_T_def 2(1) by (auto split: sum.splits)
  from a b c d show ?thesis
    by blast
qed

theorem inputs_not_mutated_witness:
  "take (length [Floats [1, 0, 0, 0, 2, 5], Floats [0, 0, 1], Ints [1, 0, 2], Floats [1, 2],
         Floats [3, 4], Floats [5, 6]])
      (snd (eval_contractions_mem \<lparr>base1 = 0, offset1 = 3, size1 = 3\<rparr> 0 0 1
         \<lparr>base2 = 2, rows2 = 1, cols2 = 3\<rparr> \<lparr>base1 = 3, offset1 = 0, size1 = 2\<rparr>
         \<lparr>base2 = 4, rows2 = 2, cols2 = 1\<rparr> \<lparr>base2 = 5, rows2 = 1, cols2 = 2\<rparr>
         [Floats [1, 0, 0, 0, 2, 5], Floats [0, 0, 1], Ints [1, 0, 2], Floats [1, 2],
          Floats [3, 4], Floats [5, 6]])) =
     [Floats [1, 0, 0, 0, 2, 5], Floats [0, 0, 1], Ints [1, 0, 2], Floats [1, 2],
      Floats [3, 4], Floats [5, 6]] \<and>
   returned_floats
      (eval_contractions_mem \<lparr>base1 = 0, offset1 = 3, size1 = 3\<rparr> 0 0 1
         \<lparr>base2 = 2, rows2 = 1, cols2 = 3\<rparr> \<lparr>base1 = 3, offset1 = 0, size1 = 2\<rparr>
         \<lparr>base2 = 4, rows2 = 2, cols2 = 1\<rparr> \<lparr>base2 = 5, rows2 = 1, cols2 = 2\<rparr>
         [Floats [1, 0, 0, 0, 2, 5], Floats [0, 0, 1], Ints [1, 0, 2], Floats [1, 2],
          Floats [3, 4], Floats [5, 6]]) =
     eval_contractions [0, 2, 5] 0 0 1 \<lparr>nrows = 1, ncols = 3, buffer = [1, 0, 2]\<rparr> [1, 2]
       \<lparr>nrows = 2, ncols = 1, buffer = [3, 4]\<rparr> \<lparr>nrows = 1, ncols = 2, buffer = [5, 6]\<rparr> \<and>
   take (length [Floats [1, 0, 0, 0, 2, 5], Floats [0, 0, 1], Ints [1, 0, 2], Floats [1, 2],
         Floats [3, 4], Floats [5, 6]])
      (snd (eval_deriv_mem \<lparr>base2 = 0, rows2 = 2, cols2 = 3\<rparr> ()
         \<lparr>base1 = 1, offset1 = 0, size1 = 3\<rparr>
         \<lparr>base2 = 2, rows2 = 1, cols2 = 3\<rparr> \<lparr>base1 = 3, offset1 = 0, size1 = 2\<rparr>
         \<lparr>base2 = 4, rows2 = 2, cols2 = 1\<rparr> \<lparr>base2 = 5, rows2 = 1, cols2 = 2\<rparr>
         [Floats [1, 0, 0, 0, 2, 5], Floats [0, 0, 1], Ints [1, 0, 2], Floats [1, 2],
          Floats [3, 4], Floats [5, 6]])) =
     [Floats [1, 0, 0, 0, 2, 5], Floats [0, 0, 1], Ints [1, 0, 2], Floats [1, 2],
      Floats [3, 4], Floats [5, 6]] \<and>
   returned_T 2
      (eval_deriv_mem \<lparr>base2 = 0, rows2 = 2, cols2 = 3\<rparr> ()
         \<lparr>base1 = 1, offset1 = 0, size1 = 3\<rparr>
         \<lparr>base2 = 2, rows2 = 1, cols2 = 3\<rparr> \<lparr>base1 = 3, offset1 = 0, size1 = 2\<rparr>
         \<lparr>base2 = 4, rows2 = 2, cols2 = 1\<rparr> \<lparr>base2 = 5, rows2 = 1, cols2 = 2\<rparr>
         [Floats [1, 0, 0, 0, 2, 5], Floats [0, 0, 1], Ints [1, 0, 2], Floats [1, 2],
          Floats [3, 4], Floats [5, 6]]) =
     eval_deriv \<lparr>nrows = 2, ncols = 3, buffer = [1, 0, 0, 0, 2, 5]\<rparr> () [0, 0, 1]
       \<lparr>nrows = 1, ncols = 3, buffer = [1, 0, 2]\<rparr> [1, 2]
       \<lparr>nrows = 2, ncols = 1, buffer = [3, 4]\<rparr> \<lparr>nrows = 1, ncols = 2, buffer = [5, 6]\<rparr>"
proof -
  define h where "h = [Floats [1, 0, 0, 0, 2, 5], Floats [0, 0, 1], Ints [1, 0, 2],
      Floats [1, 2], Floats [3, 4], Floats [5, 6]]"
  have loads: "load1 h \<lparr>base1 = 0, offset1 = 3, size1 = 3\<rparr> = [0, 2, 5]"
    "load1 h \<lparr>base1 = 1, offset1 = 0, size1 = 3\<rparr> = [0, 0, 1]"
    "load1 h \<lparr>base1 = 3, offset1 = 0, size1 = 2\<rparr> = [1, 2]"
    "load2 h \<lparr>base2 = 0, rows2 = 2, cols2 = 3\<rparr> =
       \<lparr>nrows = 2, ncols = 3, buffer = [1, 0, 0, 0, 2, 5]\<rparr>"
    "load2i h \<lparr>base2 = 2, rows2 = 1, cols2 = 3\<rparr> = \<lparr>nrows = 1, ncols = 3, buffer = [1, 0, 2]\<rparr>"
    "load2 h \<lparr>base2 = 4, rows2 = 2, cols2 = 1\<rparr> = \<lparr>nrows = 2, ncols = 1, buffer = [3, 4]\<rparr>"
    "load2 h \<lparr>base2 = 5, rows2 = 1, cols2 = 2\<rparr> = \<lparr>nrows = 1, ncols = 2, buffer = [5, 6]\<rparr>"
    by (simp_all add: h_def load1_def load2_def load2i_def get1_def floats_def ints_def
        upt_3 upt_rec [of 0 2] upt_rec [of 1 2] upt_rec [of "Suc 0" 2])
  have in_range: "base1 \<lparr>base1 = 0, offset1 = 3, size1 = 3\<rparr> < length h"
    "base2 \<lparr>base2 = 0, rows2 = 2, cols2 = 3\<rparr> < length h"
    "base2 \<lparr>base2 = 2, rows2 = 1, cols2 = 3\<rparr> < length h"
    "base1 \<lparr>base1 = 3, offset1 = 0, size1 = 2\<rparr> < length h"
    "base2 \<lparr>base2 = 4, rows2 = 2, cols2 = 1\<rparr> < length h"
    "base2 \<lparr>base2 = 5, rows2 = 1, cols2 = 2\<rparr> < length h"
    by (simp_all add: h_def)
  show ?thesis
    using inputs_not_mutated [OF in_range, of 0 0 1 "()" "\<lparr>base1 = 1, offset1 = 0, size1 = 3\<rparr>"]
    unfolding loads unfolding h_def view2.simps .
qed

section \<open>float64: the order of the primitives\<close>

text \<open>The exponent that rounding uses is the integer part of the binary logarithm.\<close>

lemma bitlen_real_bounds:
  assumes "0 < n"
  shows "0 < bitlen n" "(2::real) ^ nat (bitlen n - 1) \<le> of_int n"
    "of_int n + 1 \<le> (2::real) ^ nat (bitlen n)"
proof -
  have b: "2 ^ nat (bitlen n - 1) \<le> n" "n < 2 ^ nat (bitlen n)"
    using bitlen_bounds [OF assms] by simp_all
  show "0 < bitlen n"
  proof (rule ccontr)
    assume "\<not> 0 < bitlen n"
    then have "nat (bitlen n) = 0"
      by simp
    with b(2) assms show False
      by simp
  qed
  have "of_int (2 ^ nat (bitlen n - 1)) \<le> (of_int n :: real)"
    using b(1) by (simp only: of_int_le_iff)
  then show "(2::real) ^ nat (bitlen n - 1) \<le> of_int n"
    by simp
  have "n + 1 \<le> 2 ^ nat (bitlen n)"
    using b(2) by simp
  then have "(of_int (n + 1) :: real) \<le> of_int (2 ^ nat (bitlen n))"
    by (simp only: of_int_le_iff)
  then show "of_int n + 1 \<le> (2::real) ^ nat (bitlen n)"
    by simp
qed

lemma ilog2_ge_1:
  assumes "1 \<le> x"
  shows "pow2 (ilog2 x) \<le> x \<and> x < pow2 (ilog2 x + 1)"
proof -
  define n where "n = \<lfloor>x\<rfloor>"
  have n: "0 < n" "of_int n \<le> x" "x < of_int n + 1"
    using assms unfolding n_def by linarith+
  note b = bitlen_real_bounds [OF n(1)]
  have "2 ^ nat (bitlen n - 1) \<le> x"
    using b(2) n(2) by (rule order_trans)
  then have lo: "pow2 (bitlen n - 1) \<le> x"
    using b(1) by (simp add: pow2_def)
  have "x < 2 ^ nat (bitlen n)"
    using n(3) b(3) by (rule less_le_trans)
  then have hi: "x < pow2 (bitlen n - 1 + 1)"
    using b(1) by (simp add: pow2_def)
  have "ilog2 x = bitlen n - 1"
    using assms by (simp add: ilog2_def n_def)
  then show ?thesis
    using lo hi by (simp only:)
qed

lemma ilog2_less_1:
  assumes "0 < x" "x < 1"
  shows "pow2 (ilog2 x) \<le> x \<and> x < pow2 (ilog2 x + 1)"
proof -
  define y where "y = 1 / x"
  define n where "n = \<lceil>y\<rceil> - 1"
  have y: "1 < y"
    using assms by (simp add: y_def)
  have n: "0 < n" "of_int n < y" "y \<le> of_int n + 1"
    using y unfolding n_def by linarith+
  note b = bitlen_real_bounds [OF n(1)]
  have 1: "2 ^ nat (bitlen n - 1) < y"
    using b(2) n(2) by (rule le_less_trans)
  have 2: "y \<le> 2 ^ nat (bitlen n)"
    using n(3) b(3) by (rule order_trans)
  have x: "x = 1 / y"
    by (simp add: y_def)
  have "1 / 2 ^ nat (bitlen n) \<le> 1 / y"
    using 2 y by (intro divide_left_mono) simp_all
  then have lo: "pow2 (- bitlen n) \<le> x"
    using b(1) by (simp add: pow2_def x)
  have "1 / y < 1 / 2 ^ nat (bitlen n - 1)"
    using 1 y by (intro divide_strict_left_mono) simp_all
  moreover have "pow2 (- bitlen n + 1) = 1 / 2 ^ nat (bitlen n - 1)"
  proof (cases "bitlen n = 1")
    case True
    then show ?thesis
      by (simp add: pow2_def)
  next
    case False
    with b(1) have "1 < bitlen n"
      by simp
    then have "nat (- (- bitlen n + 1)) = nat (bitlen n - 1)" "\<not> 0 \<le> - bitlen n + 1"
      by simp_all
    then show ?thesis
      by (simp only: pow2_def if_False)
  qed
  ultimately have hi: "x < pow2 (- bitlen n + 1)"
    by (simp only: x)
  have "ilog2 x = - bitlen n"
    using assms by (simp add: ilog2_def n_def y_def)
  then show ?thesis
    using lo hi by (simp only:)
qed

lemma ilog2_bounds:
  "0 < x \<Longrightarrow> pow2 (ilog2 x) \<le> x \<and> x < pow2 (ilog2 x + 1)"
  using ilog2_ge_1 [of x] ilog2_less_1 [of x] by (cases "1 \<le> x") simp_all

text \<open>A rounded value is within half the spacing of the doubles of the exact one.\<close>

lemma round_even_near: "\<bar>of_int (round_even r) - r\<bar> \<le> 1 / 2"
proof -
  define f where "f = \<lfloor>r\<rfloor>"
  have b: "of_int f \<le> r" "r < of_int f + 1"
    unfolding f_def by linarith+
  have "round_even r =
      (if r - of_int f < 1 / 2 then f
       else if 1 / 2 < r - of_int f then f + 1 else if even f then f else f + 1)"
    by (simp add: round_even_def Let_def f_def)
  then show ?thesis
    using b by (auto simp: abs_if)
qed

lemma pow2_pos: "0 < pow2 e"
  by (simp add: pow2_def)

lemma round64_near:
  assumes "round64 x = Num y"
  shows "\<bar>y - x\<bar> \<le> pow2 (max (ilog2 \<bar>x\<bar> - 52) (- 1074)) / 2"
proof (cases "x = 0")
  case True
  with assms show ?thesis
    using pow2_pos [of "max (ilog2 \<bar>x\<bar> - 52) (- 1074)"] by (simp add: round64_def)
next
  case False
  define q where "q = pow2 (max (ilog2 \<bar>x\<bar> - 52) (- 1074))"
  have q: "0 < q"
    unfolding q_def by (rule pow2_pos)
  from assms False have y: "y = of_int (round_even (x / q)) * q"
    by (simp add: round64_def Let_def q_def split: if_splits)
  have "y - x = (of_int (round_even (x / q)) - x / q) * q"
    using q by (simp add: y field_simps)
  then have "\<bar>y - x\<bar> = \<bar>of_int (round_even (x / q)) - x / q\<bar> * q"
    using q by (simp add: abs_mult)
  also have "\<dots> \<le> 1 / 2 * q"
    using round_even_near [of "x / q"] q by (intro mult_right_mono) simp_all
  finally show ?thesis
    by (simp add: q_def)
qed

lemma eval_contractions_f64_shaped:
  assumes "length p = 3" "shaped L 3 angmom_comps" "length alphas = K"
    "shaped K M prim_coeffs" "shaped L K nrm"
  shows "eval_contractions_f64 p R_x R_y R_z angmom_comps alphas prim_coeffs nrm =
    Inr (concat (map (\<lambda>m. map (\<lambda>l. dot64 (tensordot_pairs angmom_comps alphas prim_coeffs nrm
      (shift64 p R_x R_y R_z) K m l)) [0..<L]) [0..<M]))"
  using assms
  by (simp add: eval_contractions_f64_def shaped_def broadcast_dim_def and_then_def)

lemma tensordot_pairs_perm:
  assumes "shaped L 3 angmom_comps" "length alphas = K" "shaped K M prim_coeffs"
    "shaped L K nrm" "\<sigma> ` {..<K} \<subseteq> {..<K}" "m < M" "l < L"
  shows "tensordot_pairs angmom_comps (perm_vec \<sigma> alphas) (perm_rows \<sigma> prim_coeffs)
      (perm_cols \<sigma> nrm) \<Delta> K m l =
    perm_vec \<sigma> (tensordot_pairs angmom_comps alphas prim_coeffs nrm \<Delta> K m l)"
proof -
  have s: "\<sigma> k < K" if "k < K" for k
    using assms(5) that by auto
  have len: "length (perm_vec \<sigma> alphas) = K"
    using assms by (simp add: perm_vec_def)
  have z: "zeroth_part64 angmom_comps (perm_vec \<sigma> alphas) \<Delta> k l =
      zeroth_part64 angmom_comps alphas \<Delta> (\<sigma> k) l" if "k < K" for k
    using that assms(2)
    by (simp add: zeroth_part64_def factor64_def gauss64_def perm_vec_def)
  have dims: "nrows (perm_cols \<sigma> nrm) = nrows nrm" "ncols (perm_cols \<sigma> nrm) = ncols nrm"
    by (simp_all add: perm_cols_def)
  have n: "normed_part64 angmom_comps (perm_vec \<sigma> alphas) (perm_cols \<sigma> nrm) \<Delta> k l =
      normed_part64 angmom_comps alphas nrm \<Delta> (\<sigma> k) l" if "k < K" for k
    using that assms s [OF that] z [OF that]
    by (simp add: normed_part64_def len bidx_less shaped_def at2_perm_cols dims)
  have c: "at2 (perm_rows \<sigma> prim_coeffs) k m = at2 prim_coeffs (\<sigma> k) m" if "k < K" for k
    using that assms by (simp add: at2_perm_rows shaped_def)
  have "map (\<lambda>k. (at2 (perm_rows \<sigma> prim_coeffs) k m,
        normed_part64 angmom_comps (perm_vec \<sigma> alphas) (perm_cols \<sigma> nrm) \<Delta> k l)) [0..<K] =
      map (\<lambda>k. (at2 prim_coeffs (\<sigma> k) m,
        normed_part64 angmom_comps alphas nrm \<Delta> (\<sigma> k) l)) [0..<K]"
    by (rule map_cong [OF refl]) (simp add: n c)
  also have "\<dots> = map (\<lambda>k. map (\<lambda>k. (at2 prim_coeffs k m,
        normed_part64 angmom_comps alphas nrm \<Delta> k l)) [0..<K] ! \<sigma> k) [0..<K]"
    by (rule map_cong [OF refl]) (simp add: s)
  finally show ?thesis
    unfolding tensordot_pairs_def perm_vec_def length_map length_upt
    by simp
qed

lemma mset_perm_vec:
  assumes "bij_betw \<sigma> {..<length xs} {..<length xs}"
  shows "mset (perm_vec \<sigma> xs) = mset xs"
proof -
  have "mset (perm_vec \<sigma> xs) = image_mset (\<lambda>k. xs ! \<sigma> k) (mset [0..<length xs])"
    by (simp add: perm_vec_def)
  also have "\<dots> = image_mset ((!) xs) (image_mset \<sigma> (mset_set {..<length xs}))"
    by (simp add: multiset.map_comp comp_def atLeast0LessThan)
  also have "image_mset \<sigma> (mset_set {..<length xs}) = mset_set {..<length xs}"
    using assms by (simp add: image_mset_mset_set bij_betw_def)
  also have "image_mset ((!) xs) (mset_set {..<length xs}) = mset xs"
    by (metis atLeast0LessThan map_nth mset_map mset_upt)
  finally show ?thesis .
qed


lemma round64_0: "round64 0 = Num 0"
  by (simp add: round64_def)

lemma round64_1: "round64 1 = Num 1"
  by (simp add: round64_def ilog2_def bitlen_def compute_floorlog pow2_def round_even_def Let_def)

lemma round64_big:
  "round64 10000000000000000 = Num 10000000000000000"
  "round64 (- 10000000000000000) = Num (- 10000000000000000)"
  "round64 10000000000000001 = Num 10000000000000000"
  by (simp_all add: round64_def ilog2_def bitlen_def compute_floorlog pow2_def round_even_def
      Let_def)

lemmas f64_defs = eval_contractions_f64_def broadcast_dim_def and_then_def tensordot_pairs_def
  dot64_def normed_part64_def zeroth_part64_def prod64_def factor64_def monomial64_def
  gauss64_def shift64_def at2_def bidx_def perm_vec_def perm_rows_def perm_cols_def
  add64_def sub64_def mul64_def neg64_def exp64_def pow64_def

lemma bij_swap12: "bij_betw swap12 {..<3} {..<3}"
proof -
  have "{..<3::nat} = {0, 1, 2}"
    by auto
  then show ?thesis
    by (auto simp: bij_betw_def inj_on_def swap12_def)
qed

lemma upt_1: "[0..<1] = [0]"
  by simp

lemma arith64:
  "sub64 (Num 0) (Num 0) = Num 0" "neg64 (Num 1) = Num (- 1)" "pow64 (Num 0) 2 = Num 0"
  "mul64 (Num (- 1)) (Num 0) = Num 0" "exp64 (Num 0) = Num 1" "pow64 a 0 = Num 1"
  "mul64 (Num 1) (Num 1) = Num 1"
  "mul64 (Num 10000000000000000) (Num 1) = Num 10000000000000000"
  "mul64 (Num (- 10000000000000000)) (Num 1) = Num (- 10000000000000000)"
  "add64 (Num 0) (Num 10000000000000000) = Num 10000000000000000"
  "add64 (Num 10000000000000000) (Num 1) = Num 10000000000000000"
  "add64 (Num 10000000000000000) (Num (- 10000000000000000)) = Num 0"
  "add64 (Num 0) (Num 1) = Num 1"
  by (simp_all add: sub64_def neg64_def pow64_def mul64_def exp64_def add64_def
      round64_0 round64_1 round64_big)

lemma point_at_center:
  assumes "d < 3"
  shows "shift64 [Num 0, Num 0, Num 0] (Num 0) (Num 0) (Num 0) d = Num 0"
proof -
  from assms have "d = 0 \<or> d = 1 \<or> d = 2"
    by auto
  then show ?thesis
    by (auto simp: shift64_def arith64)
qed

lemma s_orbital_at_center:
  assumes "\<And>d. d < 3 \<Longrightarrow> \<Delta> d = Num 0" "alphas ! k = Num 1"
  shows "zeroth_part64 \<lparr>nrows = 1, ncols = 3, buffer = [0, 0, 0]\<rparr> alphas \<Delta> k 0 = Num 1"
proof -
  have g: "gauss64 alphas \<Delta> k d = Num 1" if "d < 3" for d
    by (simp add: gauss64_def assms that arith64)
  have m: "monomial64 \<lparr>nrows = 1, ncols = 3, buffer = [0, 0, 0]\<rparr> \<Delta> d 0 = Num 1"
    if "d < 3" for d
  proof -
    from that have "d = 0 \<or> d = 1 \<or> d = 2"
      by auto
    then show ?thesis
      by (auto simp: monomial64_def at2_def bidx_def arith64)
  qed
  have f: "factor64 \<lparr>nrows = 1, ncols = 3, buffer = [0, 0, 0]\<rparr> alphas \<Delta> k d 0 = Num 1"
    if "d < 3" for d
    unfolding factor64_def g [OF that] m [OF that] by (simp add: arith64)
  show ?thesis
    unfolding zeroth_part64_def upt_3 by (simp add: f prod64_def arith64 del: One_nat_def)
qed


text \<open>
  C4, as amended. On the documented shapes, reordering the primitives by a permutation \<open>\<sigma>\<close>
  of \<open>{0, ..., K - 1}\<close>, applied at once to the entries of \<^verbatim>\<open>alphas\<close>, the rows of
  \<^verbatim>\<open>prim_coeffs\<close> and the columns of \<^verbatim>\<open>norm\<close>, reorders the pairs of float64 factors that
  \<^verbatim>\<open>np.tensordot\<close> contracts for each entry of the output, and changes nothing else: the
  reordered call contracts, at position \<open>k\<close>, the pair that the original call contracts at
  position \<open>\<sigma> k\<close>, so the same \<open>K\<close> pairs in another order. The output is their float64 sum
  of products accumulated in that order; it is the same in exact arithmetic, and need not be
  the same in float64.
\<close>

theorem eval_contractions_f64_reordered:
  assumes "length p = 3" "shaped L 3 angmom_comps" "length alphas = K"
    "shaped K M prim_coeffs" "shaped L K nrm" "bij_betw \<sigma> {..<K} {..<K}"
  shows "\<exists>ys zs.
    eval_contractions_f64 p R_x R_y R_z angmom_comps alphas prim_coeffs nrm = Inr ys \<and>
    eval_contractions_f64 p R_x R_y R_z angmom_comps (perm_vec \<sigma> alphas)
      (perm_rows \<sigma> prim_coeffs) (perm_cols \<sigma> nrm) = Inr zs \<and>
    length ys = M * L \<and> length zs = M * L \<and>
    (\<forall>m<M. \<forall>l<L.
       ys ! (m * L + l) =
         dot64 (tensordot_pairs angmom_comps alphas prim_coeffs nrm
           (shift64 p R_x R_y R_z) K m l) \<and>
       zs ! (m * L + l) =
         dot64 (perm_vec \<sigma> (tensordot_pairs angmom_comps alphas prim_coeffs nrm
           (shift64 p R_x R_y R_z) K m l)) \<and>
       mset (perm_vec \<sigma> (tensordot_pairs angmom_comps alphas prim_coeffs nrm
           (shift64 p R_x R_y R_z) K m l)) =
       mset (tensordot_pairs angmom_comps alphas prim_coeffs nrm
           (shift64 p R_x R_y R_z) K m l))"
proof -
  have al: "length (perm_vec \<sigma> alphas) = K"
    using assms by (simp add: perm_vec_def)
  have c: "shaped K M (perm_rows \<sigma> prim_coeffs)"
    using assms shaped_perm_rows [of prim_coeffs \<sigma>] by (simp add: shaped_def)
  have n: "shaped L K (perm_cols \<sigma> nrm)"
    using assms shaped_perm_cols [of nrm \<sigma>] by (simp add: shaped_def)
  have sub: "\<sigma> ` {..<K} \<subseteq> {..<K}"
    using assms(6) by (simp add: bij_betw_def)
  have len: "length (tensordot_pairs angmom_comps alphas prim_coeffs nrm
           (shift64 p R_x R_y R_z) K m l) = K" for m l
    by (simp add: tensordot_pairs_def)
  have ms: "mset (perm_vec \<sigma> (tensordot_pairs angmom_comps alphas prim_coeffs nrm
           (shift64 p R_x R_y R_z) K m l)) =
       mset (tensordot_pairs angmom_comps alphas prim_coeffs nrm
           (shift64 p R_x R_y R_z) K m l)" for m l
    by (rule mset_perm_vec) (simp add: len assms(6))
  show ?thesis
    unfolding eval_contractions_f64_shaped [OF assms(1-5)]
      eval_contractions_f64_shaped [OF assms(1) assms(2) al c n]
    using tensordot_pairs_perm [OF assms(2-5) sub]
    by (simp add: grid_length grid_nth ms)
qed

theorem eval_contractions_f64_reordered_witness:
  "\<exists>ys zs.
    eval_contractions_f64 [Num 1, Num 2, Num 3] (Num 0) (Num 1) (Num 1)
      \<lparr>nrows = 1, ncols = 3, buffer = [1, 0, 2]\<rparr> [Num 1, Num 2, Num (1 / 2)]
      \<lparr>nrows = 3, ncols = 1, buffer = [Num 3, Num 4, Num 5]\<rparr>
      \<lparr>nrows = 1, ncols = 3, buffer = [Num 5, Num 6, Num 7]\<rparr> = Inr ys \<and>
    eval_contractions_f64 [Num 1, Num 2, Num 3] (Num 0) (Num 1) (Num 1)
      \<lparr>nrows = 1, ncols = 3, buffer = [1, 0, 2]\<rparr>
      (perm_vec swap12 [Num 1, Num 2, Num (1 / 2)])
      (perm_rows swap12 \<lparr>nrows = 3, ncols = 1, buffer = [Num 3, Num 4, Num 5]\<rparr>)
      (perm_cols swap12 \<lparr>nrows = 1, ncols = 3, buffer = [Num 5, Num 6, Num 7]\<rparr>) = Inr zs \<and>
    length ys = 1 * 1 \<and> length zs = 1 * 1 \<and>
    ys ! (0 * 1 + 0) =
      dot64 (tensordot_pairs \<lparr>nrows = 1, ncols = 3, buffer = [1, 0, 2]\<rparr>
        [Num 1, Num 2, Num (1 / 2)] \<lparr>nrows = 3, ncols = 1, buffer = [Num 3, Num 4, Num 5]\<rparr>
        \<lparr>nrows = 1, ncols = 3, buffer = [Num 5, Num 6, Num 7]\<rparr>
        (shift64 [Num 1, Num 2, Num 3] (Num 0) (Num 1) (Num 1)) 3 0 0) \<and>
    zs ! (0 * 1 + 0) =
      dot64 (perm_vec swap12 (tensordot_pairs \<lparr>nrows = 1, ncols = 3, buffer = [1, 0, 2]\<rparr>
        [Num 1, Num 2, Num (1 / 2)] \<lparr>nrows = 3, ncols = 1, buffer = [Num 3, Num 4, Num 5]\<rparr>
        \<lparr>nrows = 1, ncols = 3, buffer = [Num 5, Num 6, Num 7]\<rparr>
        (shift64 [Num 1, Num 2, Num 3] (Num 0) (Num 1) (Num 1)) 3 0 0)) \<and>
    mset (perm_vec swap12 (tensordot_pairs \<lparr>nrows = 1, ncols = 3, buffer = [1, 0, 2]\<rparr>
        [Num 1, Num 2, Num (1 / 2)] \<lparr>nrows = 3, ncols = 1, buffer = [Num 3, Num 4, Num 5]\<rparr>
        \<lparr>nrows = 1, ncols = 3, buffer = [Num 5, Num 6, Num 7]\<rparr>
        (shift64 [Num 1, Num 2, Num 3] (Num 0) (Num 1) (Num 1)) 3 0 0)) =
    mset (tensordot_pairs \<lparr>nrows = 1, ncols = 3, buffer = [1, 0, 2]\<rparr>
        [Num 1, Num 2, Num (1 / 2)] \<lparr>nrows = 3, ncols = 1, buffer = [Num 3, Num 4, Num 5]\<rparr>
        \<lparr>nrows = 1, ncols = 3, buffer = [Num 5, Num 6, Num 7]\<rparr>
        (shift64 [Num 1, Num 2, Num 3] (Num 0) (Num 1) (Num 1)) 3 0 0)"
proof -
  have sh: "length [Num 1, Num 2, Num 3] = 3"
    "shaped 1 3 \<lparr>nrows = 1, ncols = 3, buffer = [1, 0, 2::nat]\<rparr>"
    "length [Num 1, Num 2, Num (1 / 2)] = 3"
    "shaped 3 1 \<lparr>nrows = 3, ncols = 1, buffer = [Num 3, Num 4, Num 5]\<rparr>"
    "shaped 1 3 \<lparr>nrows = 1, ncols = 3, buffer = [Num 5, Num 6, Num 7]\<rparr>"
    by (simp_all add: shaped_def)
  have lt: "(0::nat) < 1"
    by simp
  from eval_contractions_f64_reordered [OF sh bij_swap12, of "Num 0" "Num 1" "Num 1"]
  obtain ys zs where r: "eval_contractions_f64 [Num 1, Num 2, Num 3] (Num 0) (Num 1) (Num 1)
      \<lparr>nrows = 1, ncols = 3, buffer = [1, 0, 2]\<rparr> [Num 1, Num 2, Num (1 / 2)]
      \<lparr>nrows = 3, ncols = 1, buffer = [Num 3, Num 4, Num 5]\<rparr>
      \<lparr>nrows = 1, ncols = 3, buffer = [Num 5, Num 6, Num 7]\<rparr> = Inr ys"
    "eval_contractions_f64 [Num 1, Num 2, Num 3] (Num 0) (Num 1) (Num 1)
      \<lparr>nrows = 1, ncols = 3, buffer = [1, 0, 2]\<rparr>
      (perm_vec swap12 [Num 1, Num 2, Num (1 / 2)])
      (perm_rows swap12 \<lparr>nrows = 3, ncols = 1, buffer = [Num 3, Num 4, Num 5]\<rparr>)
      (perm_cols swap12 \<lparr>nrows = 1, ncols = 3, buffer = [Num 5, Num 6, Num 7]\<rparr>) = Inr zs"
    "length ys = 1 * 1" "length zs = 1 * 1"
    and e: "\<forall>m<1. \<forall>l<1.
       ys ! (m * 1 + l) =
         dot64 (tensordot_pairs \<lparr>nrows = 1, ncols = 3, buffer = [1, 0, 2]\<rparr>
           [Num 1, Num 2, Num (1 / 2)] \<lparr>nrows = 3, ncols = 1, buffer = [Num 3, Num 4, Num 5]\<rparr>
           \<lparr>nrows = 1, ncols = 3, buffer = [Num 5, Num 6, Num 7]\<rparr>
           (shift64 [Num 1, Num 2, Num 3] (Num 0) (Num 1) (Num 1)) 3 m l) \<and>
       zs ! (m * 1 + l) =
         dot64 (perm_vec swap12 (tensordot_pairs \<lparr>nrows = 1, ncols = 3, buffer = [1, 0, 2]\<rparr>
           [Num 1, Num 2, Num (1 / 2)] \<lparr>nrows = 3, ncols = 1, buffer = [Num 3, Num 4, Num 5]\<rparr>
           \<lparr>nrows = 1, ncols = 3, buffer = [Num 5, Num 6, Num 7]\<rparr>
           (shift64 [Num 1, Num 2, Num 3] (Num 0) (Num 1) (Num 1)) 3 m l)) \<and>
       mset (perm_vec swap12 (tensordot_pairs \<lparr>nrows = 1, ncols = 3, buffer = [1, 0, 2]\<rparr>
           [Num 1, Num 2, Num (1 / 2)] \<lparr>nrows = 3, ncols = 1, buffer = [Num 3, Num 4, Num 5]\<rparr>
           \<lparr>nrows = 1, ncols = 3, buffer = [Num 5, Num 6, Num 7]\<rparr>
           (shift64 [Num 1, Num 2, Num 3] (Num 0) (Num 1) (Num 1)) 3 m l)) =
       mset (tensordot_pairs \<lparr>nrows = 1, ncols = 3, buffer = [1, 0, 2]\<rparr>
           [Num 1, Num 2, Num (1 / 2)] \<lparr>nrows = 3, ncols = 1, buffer = [Num 3, Num 4, Num 5]\<rparr>
           \<lparr>nrows = 1, ncols = 3, buffer = [Num 5, Num 6, Num 7]\<rparr>
           (shift64 [Num 1, Num 2, Num 3] (Num 0) (Num 1) (Num 1)) 3 m l)"
    by blast
  from e [rule_format, OF lt lt] r show ?thesis
    by blast
qed

text \<open>
  C4 as stated fails: float64 addition is not associative. With three primitives of exponent
  1, normalization 1 and angular momentum (0, 0, 0), the point at the center and the
  coefficients \<open>10^16, 1, - 10^16\<close>, \<^verbatim>\<open>eval_contractions\<close> returns 0, since \<open>10^16 + 1\<close> rounds to
  \<open>10^16\<close>; with the primitives 1 and 2 exchanged it returns 1.
\<close>

theorem eval_contractions_f64_order:
  "bij_betw swap12 {..<3} {..<3} \<and>
   eval_contractions_f64 [Num 0, Num 0, Num 0] (Num 0) (Num 0) (Num 0)
     \<lparr>nrows = 1, ncols = 3, buffer = [0, 0, 0]\<rparr> [Num 1, Num 1, Num 1]
     \<lparr>nrows = 3, ncols = 1, buffer = [Num 10000000000000000, Num 1, Num (- 10000000000000000)]\<rparr>
     \<lparr>nrows = 1, ncols = 3, buffer = [Num 1, Num 1, Num 1]\<rparr> = Inr [Num 0] \<and>
   eval_contractions_f64 [Num 0, Num 0, Num 0] (Num 0) (Num 0) (Num 0)
     \<lparr>nrows = 1, ncols = 3, buffer = [0, 0, 0]\<rparr> (perm_vec swap12 [Num 1, Num 1, Num 1])
     (perm_rows swap12
       \<lparr>nrows = 3, ncols = 1, buffer = [Num 10000000000000000, Num 1, Num (- 10000000000000000)]\<rparr>)
     (perm_cols swap12 \<lparr>nrows = 1, ncols = 3, buffer = [Num 1, Num 1, Num 1]\<rparr>) = Inr [Num 1]"
proof -
  define \<Delta> where "\<Delta> = shift64 [Num 0, Num 0, Num 0] (Num 0) (Num 0) (Num 0)"
  have \<Delta>: "\<Delta> d = Num 0" if "d < 3" for d
    unfolding \<Delta>_def by (rule point_at_center [OF that])
  have perm: "perm_vec swap12 [Num 1, Num 1, Num 1] = [Num 1, Num 1, Num 1]"
    "perm_rows swap12
       \<lparr>nrows = 3, ncols = 1, buffer = [Num 10000000000000000, Num 1, Num (- 10000000000000000)]\<rparr> =
     \<lparr>nrows = 3, ncols = 1, buffer = [Num 10000000000000000, Num (- 10000000000000000), Num 1]\<rparr>"
    "perm_cols swap12 \<lparr>nrows = 1, ncols = 3, buffer = [Num 1, Num 1, Num 1]\<rparr> =
     \<lparr>nrows = 1, ncols = 3, buffer = [Num 1, Num 1, Num 1]\<rparr>"
    by (simp_all add: perm_vec_def perm_rows_def perm_cols_def upt_3 swap12_def at2_def)
  have z: "zeroth_part64 \<lparr>nrows = 1, ncols = 3, buffer = [0, 0, 0]\<rparr> [Num 1, Num 1, Num 1]
      \<Delta> k 0 = Num 1" if "k < 3" for k
  proof -
    from that have "k = 0 \<or> k = 1 \<or> k = 2"
      by auto
    then have "[Num 1, Num 1, Num 1] ! k = Num 1"
      by auto
    with \<Delta> show ?thesis
      by (intro s_orbital_at_center)
  qed
  have n: "normed_part64 \<lparr>nrows = 1, ncols = 3, buffer = [0, 0, 0]\<rparr> [Num 1, Num 1, Num 1]
      \<lparr>nrows = 1, ncols = 3, buffer = [Num 1, Num 1, Num 1]\<rparr> \<Delta> k 0 = Num 1"
    if "k < 3" for k
  proof -
    from that have "k = 0 \<or> k = 1 \<or> k = 2"
      by auto
    then show ?thesis
      using z [OF that] by (auto simp: normed_part64_def at2_def bidx_def arith64 simp del: One_nat_def)
  qed
  have pairs: "tensordot_pairs \<lparr>nrows = 1, ncols = 3, buffer = [0, 0, 0]\<rparr>
      [Num 1, Num 1, Num 1] C \<lparr>nrows = 1, ncols = 3, buffer = [Num 1, Num 1, Num 1]\<rparr> \<Delta> 3 0 0 =
    [(at2 C 0 0, Num 1), (at2 C 1 0, Num 1), (at2 C 2 0, Num 1)]" for C
    by (simp add: tensordot_pairs_def upt_3 n del: One_nat_def)
  have run: "eval_contractions_f64 [Num 0, Num 0, Num 0] (Num 0) (Num 0) (Num 0)
     \<lparr>nrows = 1, ncols = 3, buffer = [0, 0, 0]\<rparr> [Num 1, Num 1, Num 1]
     \<lparr>nrows = 3, ncols = 1, buffer = cs\<rparr>
     \<lparr>nrows = 1, ncols = 3, buffer = [Num 1, Num 1, Num 1]\<rparr> =
     Inr [dot64 [(cs ! 0, Num 1), (cs ! 1, Num 1), (cs ! 2, Num 1)]]" for cs
    unfolding eval_contractions_f64_def \<Delta>_def [symmetric]
    by (simp add: broadcast_dim_def and_then_def pairs at2_def upt_1 del: One_nat_def)
  show ?thesis
    unfolding perm run
    by (simp add: bij_swap12 dot64_def arith64)
qed

end
